theory Spec2Isabelle
  imports Main
begin

section \<open>Values of the request and of the response\<close>

text \<open>
  The handler reads \<^verbatim>\<open>request.json\<close> and answers with \<^verbatim>\<open>jsonify(...)\<close>, so both
  sides are JSON values. \<open>JNull\<close> also stands for Python's \<^verbatim>\<open>None\<close>, which is what
  \<^verbatim>\<open>dict.get\<close> returns for an absent key. JSON numbers with a fractional part are
  left out: no path of the handler distinguishes them from the integers.
\<close>

datatype json =
    JNull
  | JBool bool
  | JInt int
  | JStr string
  | JArr "json list"
  | JObj "(string \<times> json) list"

text \<open>Python's truth value, as \<^verbatim>\<open>not x\<close> tests it.\<close>

fun truthy :: "json \<Rightarrow> bool" where
  "truthy JNull = False"
| "truthy (JBool b) = b"
| "truthy (JInt n) = (n \<noteq> 0)"
| "truthy (JStr s) = (s \<noteq> [])"
| "truthy (JArr xs) = (xs \<noteq> [])"
| "truthy (JObj kvs) = (kvs \<noteq> [])"

text \<open>
  \<^verbatim>\<open>data.get(key)\<close> on the request body. The body is taken to be a JSON object,
  as the interface of the service has it; duplicate keys are resolved by then.
\<close>

definition dict_get :: "(string \<rightharpoonup> json) \<Rightarrow> string \<Rightarrow> json" where
  "dict_get data key = (case data key of None \<Rightarrow> JNull | Some v \<Rightarrow> v)"

text \<open>The name Python prints for the type of a value, used in an \<^verbatim>\<open>AttributeError\<close>.\<close>

fun type_name :: "json \<Rightarrow> string" where
  "type_name JNull = ''NoneType''"
| "type_name (JBool b) = ''bool''"
| "type_name (JInt n) = ''int''"
| "type_name (JStr s) = ''str''"
| "type_name (JArr xs) = ''list''"
| "type_name (JObj kvs) = ''dict''"

text \<open>
  A raised exception: its class and the text \<^verbatim>\<open>str(e)\<close> gives. All exceptions of the
  model are instances of \<^verbatim>\<open>Exception\<close>, which is what the handler's
  \<^verbatim>\<open>except Exception\<close> catches.
\<close>

datatype exn = Exn (exn_class: string) (exn_str: string)

text \<open>\<^verbatim>\<open>str.split(sep)\<close> for a separator of one character.\<close>

fun str_split :: "char \<Rightarrow> string \<Rightarrow> string list" where
  "str_split sep [] = [[]]"
| "str_split sep (c # cs) =
     (if c = sep then [] # str_split sep cs
      else (case str_split sep cs of
              [] \<Rightarrow> [[c]]
            | p # ps \<Rightarrow> (c # p) # ps))"

text \<open>\<^verbatim>\<open>sep.join(parts)\<close>, the inverse of splitting.\<close>

fun str_join :: "char \<Rightarrow> string list \<Rightarrow> string" where
  "str_join sep [] = []"
| "str_join sep [p] = p"
| "str_join sep (p # q # ps) = p @ sep # str_join sep (q # ps)"

text \<open>
  What \<^verbatim>\<open>model.encode\<close> hands back: a numpy array or a native list. The element type
  \<open>'f\<close> of the numbers is left open.
\<close>

datatype 'f embedding = Ndarray (numbers: "'f list") | Native (numbers: "'f list")

text \<open>\<^verbatim>\<open>vector.tolist()\<close> of a one-dimensional array.\<close>

definition tolist :: "'f list \<Rightarrow> 'f list" where
  "tolist xs = xs"

section \<open>The collaborators\<close>

text \<open>The schema objects of the vector database, with the fields the service sets.\<close>

datatype data_type = INT64 | FLOAT_VECTOR

record field_schema =
  field_name :: string
  dtype :: data_type
  is_primary :: bool
  auto_id :: bool
  dim :: "nat option"

record collection_schema =
  schema_fields :: "field_schema list"
  schema_description :: string

text \<open>
  Every call that leaves the process: the object store, the embedding model and the
  vector database. \<open>Collection_init name None\<close> is \<^verbatim>\<open>Collection(name)\<close>, and
  \<open>Collection_init name (Some schema)\<close> is \<^verbatim>\<open>Collection(name=name, schema=schema)\<close>.
\<close>

datatype 'f call =
    S3_get_object json json
  | Model_encode string
  | Has_collection string
  | Collection_init string "collection_schema option"
  | Num_entities string
  | Insert string "'f list list list"
  | Flush string

fun is_milvus_call :: "'f call \<Rightarrow> bool" where
  "is_milvus_call (S3_get_object b k) = False"
| "is_milvus_call (Model_encode t) = False"
| "is_milvus_call c = True"

fun is_creation_call :: "'f call \<Rightarrow> bool" where
  "is_creation_call (Collection_init n (Some s)) = True"
| "is_creation_call c = False"

fun call_target :: "'f call \<Rightarrow> string option" where
  "call_target (S3_get_object b k) = None"
| "call_target (Model_encode t) = None"
| "call_target (Has_collection n) = Some n"
| "call_target (Collection_init n s) = Some n"
| "call_target (Num_entities n) = Some n"
| "call_target (Insert n d) = Some n"
| "call_target (Flush n) = Some n"

text \<open>A collection as the database holds it, and the handle the client gets.\<close>

record 'f stored_collection =
  stored_schema :: collection_schema
  stored_rows :: "'f list list"

datatype collection = Collection (collection_name: string)

text \<open>
  The world outside the process: the collections of the vector database and the log of
  the calls issued so far, oldest first.
\<close>

record 'f world =
  collections :: "string \<rightharpoonup> 'f stored_collection"
  trace :: "'f call list"

text \<open>
  What the collaborators answer. The object store and the model answer by their
  arguments. A call to the vector database fails when \<open>milvus_fault\<close> says so, given
  the calls issued before it; otherwise it acts on the collections as described below.
\<close>

record ('b, 'f) env =
  s3_objects :: "json \<Rightarrow> json \<Rightarrow> exn + 'b"
  utf8_decode :: "'b \<Rightarrow> exn + string"
  encoder :: "string \<Rightarrow> exn + 'f embedding"
  milvus_fault :: "'f call list \<Rightarrow> 'f call \<Rightarrow> exn option"

type_synonym ('f, 'a) io = "'f world \<Rightarrow> (exn + 'a) \<times> 'f world"

definition return_io :: "'a \<Rightarrow> ('f, 'a) io" where
  "return_io x w = (Inr x, w)"

definition raise_io :: "exn \<Rightarrow> ('f, 'a) io" where
  "raise_io e w = (Inl e, w)"

text \<open>Sequencing: an exception of the first step skips the rest.\<close>

definition bind_io :: "('f, 'a) io \<Rightarrow> ('a \<Rightarrow> ('f, 'c) io) \<Rightarrow> ('f, 'c) io" where
  "bind_io m f w = (case m w of (Inl e, w') \<Rightarrow> (Inl e, w') | (Inr x, w') \<Rightarrow> f x w')"

text \<open>\<^verbatim>\<open>try: m except Exception as e: h(e)\<close>.\<close>

definition try_except :: "('f, 'a) io \<Rightarrow> (exn \<Rightarrow> ('f, 'a) io) \<Rightarrow> ('f, 'a) io" where
  "try_except m h w = (case m w of (Inl e, w') \<Rightarrow> h e w' | (Inr x, w') \<Rightarrow> (Inr x, w'))"

definition log_call :: "'f call \<Rightarrow> 'f world \<Rightarrow> 'f world" where
  "log_call c w = w\<lparr>trace := trace w @ [c]\<rparr>"

text \<open>\<^verbatim>\<open>s3_client.get_object(Bucket=..., Key=...)\<close> and the read of its body.\<close>

definition s3_client_get_object :: "('b, 'f) env \<Rightarrow> json \<Rightarrow> json \<Rightarrow> ('f, 'b) io" where
  "s3_client_get_object env bucket key w = (s3_objects env bucket key, log_call (S3_get_object bucket key) w)"

text \<open>\<^verbatim>\<open>.decode('utf-8')\<close>: no call leaves the process.\<close>

definition decode :: "('b, 'f) env \<Rightarrow> 'b \<Rightarrow> ('f, string) io" where
  "decode env bytes w = (utf8_decode env bytes, w)"

definition model_encode :: "('b, 'f) env \<Rightarrow> string \<Rightarrow> ('f, 'f embedding) io" where
  "model_encode env text w = (encoder env text, log_call (Model_encode text) w)"

text \<open>
  A call to the vector database is logged, then either fails as \<open>milvus_fault\<close> says or
  runs \<open>act\<close> on the world.
\<close>

definition milvus_call :: "('b, 'f) env \<Rightarrow> 'f call \<Rightarrow> ('f, 'a) io \<Rightarrow> ('f, 'a) io" where
  "milvus_call env c act w =
     (case milvus_fault env (trace w) c of
        Some e \<Rightarrow> (Inl e, log_call c w)
      | None \<Rightarrow> act (log_call c w))"

definition utility_has_collection :: "('b, 'f) env \<Rightarrow> string \<Rightarrow> ('f, bool) io" where
  "utility_has_collection env name =
     milvus_call env (Has_collection name) (\<lambda>w. (Inr (collections w name \<noteq> None), w))"

text \<open>
  The constructor \<^verbatim>\<open>Collection(name, schema)\<close>: an existing collection is opened (with
  a schema given, it must be the stored one); a missing one is created from the schema,
  and cannot be opened without one.
\<close>

definition Collection_new :: "('b, 'f) env \<Rightarrow> string \<Rightarrow> collection_schema option \<Rightarrow> ('f, collection) io" where
  "Collection_new env name schema =
     milvus_call env (Collection_init name schema)
       (\<lambda>w. case collections w name of
              Some stored \<Rightarrow>
                (case schema of
                   None \<Rightarrow> (Inr (Collection name), w)
                 | Some s \<Rightarrow>
                     if stored_schema stored = s then (Inr (Collection name), w)
                     else (Inl (Exn ''SchemaNotReadyException'' ''The collection already exist, but the schema is not the same as the schema passed in.''), w))
            | None \<Rightarrow>
                (case schema of
                   None \<Rightarrow> (Inl (Exn ''SchemaNotReadyException'' ''Collection does not exist and no schema was given.''), w)
                 | Some s \<Rightarrow>
                     (Inr (Collection name),
                      w\<lparr>collections := (collections w)(name \<mapsto> \<lparr>stored_schema = s, stored_rows = []\<rparr>)\<rparr>)))"

definition num_entities :: "('b, 'f) env \<Rightarrow> collection \<Rightarrow> ('f, nat) io" where
  "num_entities env c =
     milvus_call env (Num_entities (collection_name c))
       (\<lambda>w. case collections w (collection_name c) of
              None \<Rightarrow> (Inl (Exn ''MilvusException'' ''collection not found''), w)
            | Some stored \<Rightarrow> (Inr (length (stored_rows stored)), w))"

text \<open>
  \<^verbatim>\<open>collection.insert(data)\<close> takes the data by column. The collections of this
  service have one column to fill, the vector (the identifier is assigned by the
  database), so the rows of that column are appended.
\<close>

definition insert_rows :: "('b, 'f) env \<Rightarrow> collection \<Rightarrow> 'f list list list \<Rightarrow> ('f, unit) io" where
  "insert_rows env c data =
     milvus_call env (Insert (collection_name c) data)
       (\<lambda>w. case collections w (collection_name c) of
              None \<Rightarrow> (Inl (Exn ''MilvusException'' ''collection not found''), w)
            | Some stored \<Rightarrow>
                (case data of
                   [column] \<Rightarrow>
                     (Inr (),
                      w\<lparr>collections := (collections w)(collection_name c \<mapsto>
                           stored\<lparr>stored_rows := stored_rows stored @ column\<rparr>)\<rparr>)
                 | _ \<Rightarrow> (Inl (Exn ''DataNotMatchException'' ''The data does not match the schema.''), w)))"

definition flush :: "('b, 'f) env \<Rightarrow> collection \<Rightarrow> ('f, unit) io" where
  "flush env c =
     milvus_call env (Flush (collection_name c))
       (\<lambda>w. case collections w (collection_name c) of
              None \<Rightarrow> (Inl (Exn ''MilvusException'' ''collection not found''), w)
            | Some stored \<Rightarrow> (Inr (), w))"

section \<open>The service\<close>

text \<open>The f-string \<^verbatim>\<open>f"{parent_collection_name}_{subfolder_name}"\<close>.\<close>

definition full_collection_name :: "string \<Rightarrow> string \<Rightarrow> string" where
  "full_collection_name parent_collection_name subfolder_name =
     parent_collection_name @ ''_'' @ subfolder_name"

text \<open>The schema built in \<^verbatim>\<open>create_or_get_collection\<close>.\<close>

definition fields :: "field_schema list" where
  "fields =
     [\<lparr>field_name = ''id'', dtype = INT64, is_primary = True, auto_id = True, dim = None\<rparr>,
      \<lparr>field_name = ''vector'', dtype = FLOAT_VECTOR, is_primary = False, auto_id = False,
       dim = Some 768\<rparr>]"

definition collection_schema_new :: collection_schema where
  "collection_schema_new =
     \<lparr>schema_fields = fields, schema_description = ''Text embeddings collection''\<rparr>"

text \<open>
  \<^verbatim>\<open>create_or_get_collection\<close>. The prints are left out; the entity count they show is
  still read from the database.
\<close>

definition create_or_get_collection ::
  "('b, 'f) env \<Rightarrow> string \<Rightarrow> string \<Rightarrow> ('f, collection) io" where
  "create_or_get_collection env parent_collection_name subfolder_name =
     (let full_name = full_collection_name parent_collection_name subfolder_name in
      bind_io (utility_has_collection env full_name) (\<lambda>has.
        if has then
          bind_io (Collection_new env full_name None) (\<lambda>collection.
          bind_io (num_entities env collection) (\<lambda>n.
          return_io collection))
        else
          Collection_new env full_name (Some collection_schema_new)))"

type_synonym response = "json \<times> nat"

definition error_body :: "string \<Rightarrow> json" where
  "error_body msg = JObj [(''error'', JStr msg)]"

definition message_body :: "string \<Rightarrow> json" where
  "message_body msg = JObj [(''message'', JStr msg)]"

text \<open>\<^verbatim>\<open>[vector.tolist()] if isinstance(vector, np.ndarray) else [vector]\<close>.\<close>

definition wrap_vector :: "'f embedding \<Rightarrow> 'f list list" where
  "wrap_vector vector = (case vector of Ndarray a \<Rightarrow> [tolist a] | Native xs \<Rightarrow> [xs])"

text \<open>
  \<^verbatim>\<open>file_key.split('/')\<close>: only a string has the method; any other value raises
  \<^verbatim>\<open>AttributeError\<close>.
\<close>

definition split_key :: "json \<Rightarrow> ('f, string \<times> string list) io" where
  "split_key file_key =
     (case file_key of
        JStr k \<Rightarrow> return_io (k, str_split (CHR ''/'') k)
      | _ \<Rightarrow> raise_io (Exn ''AttributeError''
               (CHR 0x27 # type_name file_key @ CHR 0x27 # '' object has no attribute ''
                  @ CHR 0x27 # ''split'' @ [CHR 0x27])))"

text \<open>
  The handler \<^verbatim>\<open>process_file\<close>, in the order of the source: presence check, fetch,
  decode, embedding, wrapping, path check, collection, then the guarded insert and flush.
  A result \<open>Inl e\<close> is an exception that leaves the handler; \<open>Inr (body, status)\<close> is
  the response it returns.
\<close>

definition process_file :: "('b, 'f) env \<Rightarrow> (string \<rightharpoonup> json) \<Rightarrow> ('f, response) io" where
  "process_file env data =
     (let bucket_name = dict_get data ''bucket_name'';
          file_key = dict_get data ''file_key'' in
      if \<not> truthy bucket_name \<or> \<not> truthy file_key then
        return_io (error_body ''Missing bucket_name or file_key'', 400)
      else
        bind_io (s3_client_get_object env bucket_name file_key) (\<lambda>body.
        bind_io (decode env body) (\<lambda>file_content.
        bind_io (model_encode env file_content) (\<lambda>encoded.
        let vector = wrap_vector encoded in
        bind_io (split_key file_key) (\<lambda>(key, path_parts).
        if length path_parts < 3 then
          return_io (error_body (''Invalid file path: '' @ key), 400)
        else
          let parent_folder = path_parts ! 0;
              subfolder = path_parts ! 1 in
          bind_io (create_or_get_collection env parent_folder subfolder) (\<lambda>collection.
          bind_io (num_entities env collection) (\<lambda>before.
          try_except
            (bind_io (insert_rows env collection [vector]) (\<lambda>u.
             bind_io (flush env collection) (\<lambda>u.
             bind_io (num_entities env collection) (\<lambda>after.
             return_io (message_body (''Successfully inserted vector for '' @ key), 200)))))
            (\<lambda>e. return_io (error_body (''Error inserting vector: '' @ exn_str e), 500)))))))))"

text \<open>
  The handler from the collection lookup to its end (lines 99 to 110 of the source),
  under a name of its own for the proofs; \<open>process_file_front\<close> below shows that
  \<open>process_file\<close> ends in it.
\<close>

definition insert_into_milvus ::
  "('b, 'f) env \<Rightarrow> string \<Rightarrow> string list \<Rightarrow> 'f list list \<Rightarrow> ('f, response) io" where
  "insert_into_milvus env key path_parts vector =
     bind_io (create_or_get_collection env (path_parts ! 0) (path_parts ! 1)) (\<lambda>collection.
     bind_io (num_entities env collection) (\<lambda>before.
     try_except
       (bind_io (insert_rows env collection [vector]) (\<lambda>u.
        bind_io (flush env collection) (\<lambda>u.
        bind_io (num_entities env collection) (\<lambda>after.
        return_io (message_body (''Successfully inserted vector for '' @ key), 200)))))
       (\<lambda>e. return_io (error_body (''Error inserting vector: '' @ exn_str e), 500))))"

section \<open>Observing a run\<close>

text \<open>The calls added to the log between two worlds, and those a run of the handler adds.\<close>

definition new_calls :: "'f world \<Rightarrow> 'f world \<Rightarrow> 'f call list" where
  "new_calls w w' = drop (length (trace w)) (trace w')"

definition issued :: "('b, 'f) env \<Rightarrow> (string \<rightharpoonup> json) \<Rightarrow> 'f world \<Rightarrow> 'f call list" where
  "issued env data w = new_calls w (snd (process_file env data w))"

text \<open>The calls to the vector database that a request for collection \<open>n\<close> may issue.\<close>

definition milvus_calls_for :: "string \<Rightarrow> 'f list list \<Rightarrow> 'f call set" where
  "milvus_calls_for n vector =
     {Has_collection n, Collection_init n None, Collection_init n (Some collection_schema_new),
      Num_entities n, Insert n [vector], Flush n}"

text \<open>\<open>extends S w w'\<close>: the log of \<open>w'\<close> is the log of \<open>w\<close> followed by calls from \<open>S\<close>.\<close>

definition extends :: "'f call set \<Rightarrow> 'f world \<Rightarrow> 'f world \<Rightarrow> bool" where
  "extends S w w' \<longleftrightarrow> (\<exists>new. trace w' = trace w @ new \<and> set new \<subseteq> S)"

text \<open>
  \<open>db_step n w w'\<close>: from \<open>w\<close> to \<open>w'\<close> only collection \<open>n\<close> may have changed; if it
  was there it still is, with its schema, and if it is new it has the schema of the service.
\<close>

definition db_step :: "string \<Rightarrow> 'f world \<Rightarrow> 'f world \<Rightarrow> bool" where
  "db_step n w w' \<longleftrightarrow>
     (\<forall>m. m \<noteq> n \<longrightarrow> collections w' m = collections w m) \<and>
     (case collections w n of
        None \<Rightarrow> (\<forall>st'. collections w' n = Some st' \<longrightarrow> stored_schema st' = collection_schema_new)
      | Some st \<Rightarrow> (\<exists>st'. collections w' n = Some st' \<and> stored_schema st' = stored_schema st))"

section \<open>Sample collaborators and requests\<close>

text \<open>
  An object store with one bucket, a decoder, a model and a database that rejects
  inserts into one collection and flushes of another.
\<close>

definition env_demo :: "(nat list, int) env" where
  "env_demo =
     \<lparr>s3_objects = (\<lambda>bucket key.
        if bucket \<noteq> JStr ''docs'' then
          Inl (Exn ''NoSuchBucket'' ''The specified bucket does not exist'')
        else if key = JStr ''teamA/notes/missing.txt'' then
          Inl (Exn ''NoSuchKey'' ''The specified key does not exist.'')
        else if key = JStr ''teamA/notes/binary.bin'' then Inr [255]
        else if key = JStr ''teamA/notes/huge.txt'' then Inr [104, 117, 103, 101]
        else Inr [104, 105]),
      utf8_decode = (\<lambda>bytes.
        if bytes = [104, 105] then Inr ''hi''
        else if bytes = [104, 117, 103, 101] then Inr ''huge''
        else Inl (Exn ''UnicodeDecodeError'' ''invalid start byte'')),
      encoder = (\<lambda>text.
        if text = ''huge'' then Inl (Exn ''RuntimeError'' ''out of memory'')
        else Inr (Ndarray [1, 2, 3])),
      milvus_fault = (\<lambda>tr c.
        case c of
          Insert n d \<Rightarrow>
            if n = ''bad_insert'' then Some (Exn ''MilvusException'' ''dimension mismatch'')
            else None
        | Flush n \<Rightarrow>
            if n = ''bad_flush'' then Some (Exn ''MilvusException'' ''flush timed out'')
            else None
        | _ \<Rightarrow> None)\<rparr>"

text \<open>The same collaborators with a model that hands back a native list.\<close>

definition env_native :: "(nat list, int) env" where
  "env_native = env_demo\<lparr>encoder := (\<lambda>text. Inr (Native [1, 2, 3]))\<rparr>"

definition world_empty :: "int world" where
  "world_empty = \<lparr>collections = Map.empty, trace = []\<rparr>"

definition request :: "string \<Rightarrow> string \<Rightarrow> (string \<rightharpoonup> json)" where
  "request bucket key = [''bucket_name'' \<mapsto> JStr bucket, ''file_key'' \<mapsto> JStr key]"

definition request_no_bucket :: "string \<rightharpoonup> json" where
  "request_no_bucket = [''file_key'' \<mapsto> JStr ''teamA/notes/readme.txt'']"

section \<open>Splitting and joining\<close>

lemma str_split_not_Nil: "str_split sep s \<noteq> []"
  by (induction s) (auto split: list.splits)

lemma str_join_split: "str_join sep (str_split sep s) = s"
proof (induction s)
  case Nil
  show ?case by simp
next
  case (Cons c cs)
  obtain p ps where ps: "str_split sep cs = p # ps"
    using str_split_not_Nil [of sep cs] by (cases "str_split sep cs") auto
  show ?case
  proof (cases "c = sep")
    case True
    with Cons ps show ?thesis by simp
  next
    case False
    with Cons ps show ?thesis by (cases ps) auto
  qed
qed

lemma str_split_no_sep: "p \<in> set (str_split sep s) \<Longrightarrow> sep \<notin> set p"
proof (induction s arbitrary: p)
  case Nil
  then show ?case by simp
next
  case (Cons c cs)
  obtain q qs where qs: "str_split sep cs = q # qs"
    using str_split_not_Nil [of sep cs] by (cases "str_split sep cs") auto
  with Cons show ?case by (auto split: if_splits)
qed

lemma length_str_split: "length (str_split sep s) = Suc (count_list s sep)"
proof (induction s)
  case Nil
  show ?case by simp
next
  case (Cons c cs)
  obtain q qs where qs: "str_split sep cs = q # qs"
    using str_split_not_Nil [of sep cs] by (cases "str_split sep cs") auto
  with Cons show ?case by auto
qed

section \<open>Sequencing\<close>

lemma bind_io_alt:
  "bind_io m f w = (case fst (m w) of Inl e \<Rightarrow> (Inl e, snd (m w)) | Inr x \<Rightarrow> f x (snd (m w)))"
  by (simp add: bind_io_def split: prod.splits sum.splits)

lemma try_except_alt:
  "try_except m h w = (case fst (m w) of Inl e \<Rightarrow> h e (snd (m w)) | Inr x \<Rightarrow> (Inr x, snd (m w)))"
  by (simp add: try_except_def split: prod.splits sum.splits)

lemma rel_bind:
  assumes trans: "\<And>a b c. R a b \<Longrightarrow> R b c \<Longrightarrow> R a c"
    and first: "R w (snd (m w))"
    and rest: "\<And>x w'. m w = (Inr x, w') \<Longrightarrow> R w' (snd (f x w'))"
  shows "R w (snd (bind_io m f w))"
proof (cases "m w")
  case (Pair r w')
  show ?thesis
  proof (cases r)
    case (Inl e)
    with Pair first show ?thesis by (simp add: bind_io_def)
  next
    case (Inr x)
    with Pair have "R w' (snd (f x w'))" by (simp add: rest)
    moreover from Pair first have "R w w'" by simp
    ultimately have "R w (snd (f x w'))" by (rule trans [rotated])
    with Pair Inr show ?thesis by (simp add: bind_io_def)
  qed
qed

lemma rel_try:
  assumes trans: "\<And>a b c. R a b \<Longrightarrow> R b c \<Longrightarrow> R a c"
    and first: "R w (snd (m w))"
    and handler: "\<And>e w'. m w = (Inl e, w') \<Longrightarrow> R w' (snd (h e w'))"
  shows "R w (snd (try_except m h w))"
proof (cases "m w")
  case (Pair r w')
  show ?thesis
  proof (cases r)
    case (Inr x)
    with Pair first show ?thesis by (simp add: try_except_def)
  next
    case (Inl e)
    with Pair have "R w' (snd (h e w'))" by (simp add: handler)
    moreover from Pair first have "R w w'" by simp
    ultimately have "R w (snd (h e w'))" by (rule trans [rotated])
    with Pair Inl show ?thesis by (simp add: try_except_def)
  qed
qed

lemma rel_milvus_call:
  assumes trans: "\<And>a b c. R a b \<Longrightarrow> R b c \<Longrightarrow> R a c"
    and logged: "R w (log_call c w)"
    and acted: "R (log_call c w) (snd (act (log_call c w)))"
  shows "R w (snd (milvus_call env c act w))"
proof (cases "milvus_fault env (trace w) c")
  case None
  from logged acted have "R w (snd (act (log_call c w)))" by (rule trans)
  with None show ?thesis by (simp add: milvus_call_def)
next
  case (Some e)
  with logged show ?thesis by (simp add: milvus_call_def)
qed

lemma milvus_call_result:
  assumes "milvus_call env c act w = (Inr x, w')"
    and "\<And>w y w'. act w = (Inr y, w') \<Longrightarrow> Q y"
  shows "Q x"
  using assms by (auto simp: milvus_call_def split: option.splits)

section \<open>The log only grows\<close>

lemma extends_refl: "extends S w w"
  by (simp add: extends_def)

lemma extends_trans: "extends S w w' \<Longrightarrow> extends S w' w'' \<Longrightarrow> extends S w w''"
  by (auto simp: extends_def)

lemma extends_same: "trace w' = trace w \<Longrightarrow> extends S w w'"
  by (simp add: extends_def)

lemma extends_log: "c \<in> S \<Longrightarrow> extends S w (log_call c w)"
  by (simp add: extends_def log_call_def)

lemma extends_new_calls: "extends S w w' \<Longrightarrow> set (new_calls w w') \<subseteq> S"
  by (auto simp: extends_def new_calls_def)

lemma extends_return: "extends S w (snd (return_io x w))"
  by (simp add: return_io_def extends_refl)

lemma extends_bind:
  assumes "extends S w (snd (m w))"
    and "\<And>x w'. m w = (Inr x, w') \<Longrightarrow> extends S w' (snd (f x w'))"
  shows "extends S w (snd (bind_io m f w))"
proof (rule rel_bind [where R = "extends S"])
  show "extends S a c" if "extends S a b" and "extends S b c" for a b c
    using that by (rule extends_trans)
  show "extends S w (snd (m w))" by (rule assms(1))
  show "extends S w' (snd (f x w'))" if "m w = (Inr x, w')" for x w'
    using that by (rule assms(2))
qed

lemma extends_try:
  assumes "extends S w (snd (m w))"
    and "\<And>e w'. m w = (Inl e, w') \<Longrightarrow> extends S w' (snd (h e w'))"
  shows "extends S w (snd (try_except m h w))"
proof (rule rel_try [where R = "extends S"])
  show "extends S a c" if "extends S a b" and "extends S b c" for a b c
    using that by (rule extends_trans)
  show "extends S w (snd (m w))" by (rule assms(1))
  show "extends S w' (snd (h e w'))" if "m w = (Inl e, w')" for e w'
    using that by (rule assms(2))
qed

lemma extends_milvus_call:
  assumes "c \<in> S" and "\<And>w. trace (snd (act w)) = trace w"
  shows "extends S w (snd (milvus_call env c act w))"
  by (rule rel_milvus_call [where R = "extends S", OF extends_trans])
    (simp_all add: assms extends_log extends_same)

lemma extends_has: "Has_collection n \<in> S \<Longrightarrow> extends S w (snd (utility_has_collection env n w))"
  unfolding utility_has_collection_def by (rule extends_milvus_call) auto

lemma extends_new: "Collection_init n s \<in> S \<Longrightarrow> extends S w (snd (Collection_new env n s w))"
  unfolding Collection_new_def
  by (rule extends_milvus_call) (auto split: option.splits)

lemma extends_num: "Num_entities (collection_name c) \<in> S \<Longrightarrow> extends S w (snd (num_entities env c w))"
  unfolding num_entities_def
  by (rule extends_milvus_call) (auto split: option.splits)

lemma extends_insert: "Insert (collection_name c) d \<in> S \<Longrightarrow> extends S w (snd (insert_rows env c d w))"
  unfolding insert_rows_def
  by (rule extends_milvus_call) (auto split: option.splits list.splits)

lemma extends_flush: "Flush (collection_name c) \<in> S \<Longrightarrow> extends S w (snd (flush env c w))"
  unfolding flush_def
  by (rule extends_milvus_call) (auto split: option.splits)

section \<open>Results of the calls\<close>

lemma has_collection_result:
  "utility_has_collection env n w = (Inr has, w') \<Longrightarrow>
   has = (collections w n \<noteq> None) \<and> collections w' = collections w"
  by (auto simp: utility_has_collection_def milvus_call_def log_call_def split: option.splits)

lemma Collection_new_result: "Collection_new env n s w = (Inr c, w') \<Longrightarrow> c = Collection n"
  unfolding Collection_new_def
  by (erule milvus_call_result) (auto split: option.splits if_splits)

lemma create_or_get_collection_result:
  "create_or_get_collection env p s w = (Inr c, w') \<Longrightarrow> c = Collection (full_collection_name p s)"
  by (auto simp: create_or_get_collection_def bind_io_def return_io_def Let_def
      split: prod.splits sum.splits if_splits dest: Collection_new_result)

section \<open>The calls of the lookup and of the insertion\<close>

lemma extends_create_or_get_collection:
  assumes "{Has_collection (full_collection_name p s),
            Collection_init (full_collection_name p s) None,
            Collection_init (full_collection_name p s) (Some collection_schema_new),
            Num_entities (full_collection_name p s)} \<subseteq> S"
  shows "extends S w (snd (create_or_get_collection env p s w))"
  using assms unfolding create_or_get_collection_def Let_def
  by (auto intro!: extends_bind extends_has extends_new extends_num extends_return
      dest!: Collection_new_result)

lemma extends_existing_collection:
  assumes "collections w (full_collection_name p s) \<noteq> None"
    and "{Has_collection (full_collection_name p s),
          Collection_init (full_collection_name p s) None,
          Num_entities (full_collection_name p s)} \<subseteq> S"
  shows "extends S w (snd (create_or_get_collection env p s w))"
  using assms unfolding create_or_get_collection_def Let_def
  by (auto intro!: extends_bind extends_has extends_new extends_num extends_return
      dest!: Collection_new_result has_collection_result)

lemma extends_insert_tail:
  assumes "{Num_entities (collection_name c), Insert (collection_name c) [vector],
            Flush (collection_name c)} \<subseteq> S"
  shows "extends S w (snd (bind_io (num_entities env c) (\<lambda>before.
     try_except
       (bind_io (insert_rows env c [vector]) (\<lambda>u.
        bind_io (flush env c) (\<lambda>u.
        bind_io (num_entities env c) (\<lambda>after.
        return_io r))))
       (\<lambda>e. return_io (r' e))) w))"
  using assms
  by (auto intro!: extends_bind extends_try extends_num extends_insert extends_flush extends_return)

lemma extends_insert_into_milvus:
  "extends (milvus_calls_for (full_collection_name (parts ! 0) (parts ! 1)) vector) w
     (snd (insert_into_milvus env key parts vector w))"
  unfolding insert_into_milvus_def
  apply (rule extends_bind)
   apply (rule extends_create_or_get_collection)
   apply (simp add: milvus_calls_for_def)
  apply (drule create_or_get_collection_result)
  apply (simp only:)
  apply (rule extends_insert_tail)
  apply (simp add: milvus_calls_for_def)
  done

lemma extends_insert_into_existing:
  assumes "collections w (full_collection_name (parts ! 0) (parts ! 1)) \<noteq> None"
  shows "extends {c. \<not> is_creation_call c} w (snd (insert_into_milvus env key parts vector w))"
  unfolding insert_into_milvus_def
  apply (rule extends_bind)
   apply (rule extends_existing_collection [OF assms])
   apply simp
  apply (drule create_or_get_collection_result)
  apply (simp only:)
  apply (rule extends_insert_tail)
  apply simp
  done

section \<open>The collections only grow\<close>

lemma db_step_same: "collections w' = collections w \<Longrightarrow> db_step n w w'"
  by (auto simp: db_step_def split: option.splits)

lemma db_step_trans: "db_step n w w' \<Longrightarrow> db_step n w' w'' \<Longrightarrow> db_step n w w''"
  by (auto simp: db_step_def split: option.splits)

lemma db_step_bind:
  assumes "db_step n w (snd (m w))"
    and "\<And>x w'. m w = (Inr x, w') \<Longrightarrow> db_step n w' (snd (f x w'))"
  shows "db_step n w (snd (bind_io m f w))"
proof (rule rel_bind [where R = "db_step n"])
  show "db_step n a c" if "db_step n a b" and "db_step n b c" for a b c
    using that by (rule db_step_trans)
  show "db_step n w (snd (m w))" by (rule assms(1))
  show "db_step n w' (snd (f x w'))" if "m w = (Inr x, w')" for x w'
    using that by (rule assms(2))
qed

lemma db_step_try:
  assumes "db_step n w (snd (m w))"
    and "\<And>e w'. m w = (Inl e, w') \<Longrightarrow> db_step n w' (snd (h e w'))"
  shows "db_step n w (snd (try_except m h w))"
proof (rule rel_try [where R = "db_step n"])
  show "db_step n a c" if "db_step n a b" and "db_step n b c" for a b c
    using that by (rule db_step_trans)
  show "db_step n w (snd (m w))" by (rule assms(1))
  show "db_step n w' (snd (h e w'))" if "m w = (Inl e, w')" for e w'
    using that by (rule assms(2))
qed

lemma db_step_return: "db_step n w (snd (return_io x w))"
  by (simp add: return_io_def db_step_same)

lemma db_step_milvus_call:
  assumes "\<And>w. db_step n w (snd (act w))"
  shows "db_step n w (snd (milvus_call env c act w))"
proof (rule rel_milvus_call [where R = "db_step n"])
  show "db_step n a c" if "db_step n a b" and "db_step n b c" for a b c
    using that by (rule db_step_trans)
  show "db_step n w (log_call c w)" by (simp add: db_step_same log_call_def)
  show "db_step n (log_call c w) (snd (act (log_call c w)))" by (rule assms)
qed

lemma db_step_has: "db_step n w (snd (utility_has_collection env m w))"
  unfolding utility_has_collection_def by (rule db_step_milvus_call) (simp add: db_step_same)

lemma db_step_new:
  assumes "s = None \<or> s = Some collection_schema_new"
  shows "db_step n w (snd (Collection_new env n s w))"
  unfolding Collection_new_def
  by (rule db_step_milvus_call) (use assms in \<open>auto simp: db_step_def split: option.splits\<close>)

lemma db_step_num: "db_step n w (snd (num_entities env c w))"
  unfolding num_entities_def
  by (rule db_step_milvus_call) (auto simp: db_step_same split: option.splits)

lemma db_step_insert: "db_step (collection_name c) w (snd (insert_rows env c d w))"
  unfolding insert_rows_def
  by (rule db_step_milvus_call) (auto simp: db_step_def split: option.splits list.splits)

lemma db_step_flush: "db_step n w (snd (flush env c w))"
  unfolding flush_def
  by (rule db_step_milvus_call) (auto simp: db_step_same split: option.splits)

lemma db_step_create_or_get_collection:
  "db_step (full_collection_name p s) w (snd (create_or_get_collection env p s w))"
  unfolding create_or_get_collection_def Let_def
  by (auto intro!: db_step_bind db_step_has db_step_new db_step_num db_step_return)

lemma db_step_insert_into_milvus:
  "db_step (full_collection_name (parts ! 0) (parts ! 1)) w
     (snd (insert_into_milvus env key parts vector w))"
  unfolding insert_into_milvus_def
  apply (rule db_step_bind)
   apply (rule db_step_create_or_get_collection)
  apply (drule create_or_get_collection_result)
  apply (auto intro!: db_step_bind db_step_try db_step_num db_step_flush db_step_return
      db_step_insert [where c = "Collection n" for n, simplified])
  done

lemma existing_collection_unchanged:
  assumes "collections w (full_collection_name p s) \<noteq> None"
  shows "collections (snd (create_or_get_collection env p s w)) = collections w"
  using assms
  by (auto simp: create_or_get_collection_def Let_def bind_io_def return_io_def
      utility_has_collection_def Collection_new_def num_entities_def milvus_call_def
      log_call_def split: option.splits prod.splits sum.splits)

section \<open>The front of the handler\<close>

lemma process_file_missing:
  assumes "\<not> truthy (dict_get data ''bucket_name'') \<or> \<not> truthy (dict_get data ''file_key'')"
  shows "process_file env data w =
           (Inr (error_body ''Missing bucket_name or file_key'', 400), w)"
  using assms by (auto simp: process_file_def return_io_def)

lemma process_file_front:
  assumes "truthy (dict_get data ''bucket_name'')" and "truthy (dict_get data ''file_key'')"
  shows "process_file env data w =
     bind_io (s3_client_get_object env (dict_get data ''bucket_name'') (dict_get data ''file_key''))
       (\<lambda>body. bind_io (decode env body)
       (\<lambda>file_content. bind_io (model_encode env file_content)
       (\<lambda>encoded. bind_io (split_key (dict_get data ''file_key''))
       (\<lambda>(key, path_parts).
          if length path_parts < 3 then
            return_io (error_body (''Invalid file path: '' @ key), 400)
          else insert_into_milvus env key path_parts (wrap_vector encoded))))) w"
  using assms by (simp only: process_file_def Let_def insert_into_milvus_def simp_thms if_False)

lemmas front_defs = bind_io_def s3_client_get_object_def decode_def model_encode_def
  split_key_def return_io_def raise_io_def

text \<open>The equations that run the handler on the sample collaborators.\<close>

lemmas run_defs = process_file_def create_or_get_collection_def bind_io_def try_except_def
  return_io_def raise_io_def log_call_def s3_client_get_object_def decode_def model_encode_def
  milvus_call_def utility_has_collection_def Collection_new_def num_entities_def
  insert_rows_def flush_def split_key_def Let_def dict_get_def env_demo_def env_native_def
  world_empty_def request_def full_collection_name_def wrap_vector_def tolist_def issued_def
  new_calls_def error_body_def message_body_def

lemma fetch_raises:
  assumes "truthy (dict_get data ''bucket_name'')" and "truthy (dict_get data ''file_key'')"
    and "s3_objects env (dict_get data ''bucket_name'') (dict_get data ''file_key'') = Inl e"
  shows "process_file env data w =
     (Inl e, log_call (S3_get_object (dict_get data ''bucket_name'') (dict_get data ''file_key'')) w)"
  using assms(3) by (simp add: process_file_front [OF assms(1,2)] front_defs)

lemma decode_raises:
  assumes "truthy (dict_get data ''bucket_name'')" and "truthy (dict_get data ''file_key'')"
    and "s3_objects env (dict_get data ''bucket_name'') (dict_get data ''file_key'') = Inr body"
    and "utf8_decode env body = Inl e"
  shows "process_file env data w =
     (Inl e, log_call (S3_get_object (dict_get data ''bucket_name'') (dict_get data ''file_key'')) w)"
  using assms(3,4) by (simp add: process_file_front [OF assms(1,2)] front_defs)

lemma encode_raises:
  assumes "truthy (dict_get data ''bucket_name'')" and "truthy (dict_get data ''file_key'')"
    and "s3_objects env (dict_get data ''bucket_name'') (dict_get data ''file_key'') = Inr body"
    and "utf8_decode env body = Inr content"
    and "encoder env content = Inl e"
  shows "process_file env data w =
     (Inl e, log_call (Model_encode content)
        (log_call (S3_get_object (dict_get data ''bucket_name'') (dict_get data ''file_key'')) w))"
  using assms(3-) by (simp add: process_file_front [OF assms(1,2)] front_defs)

lemma split_raises:
  assumes "truthy (dict_get data ''bucket_name'')" and "truthy (dict_get data ''file_key'')"
    and "s3_objects env (dict_get data ''bucket_name'') (dict_get data ''file_key'') = Inr body"
    and "utf8_decode env body = Inr content"
    and "encoder env content = Inr v"
    and "\<And>k. dict_get data ''file_key'' \<noteq> JStr k"
  shows "\<exists>e. process_file env data w =
     (Inl e, log_call (Model_encode content)
        (log_call (S3_get_object (dict_get data ''bucket_name'') (dict_get data ''file_key'')) w))"
  using assms(3-) by (simp add: process_file_front [OF assms(1,2)] front_defs split: json.splits)

lemma short_key_rejected:
  assumes "truthy (dict_get data ''bucket_name'')" and "dict_get data ''file_key'' = JStr k"
    and "k \<noteq> []"
    and "s3_objects env (dict_get data ''bucket_name'') (JStr k) = Inr body"
    and "utf8_decode env body = Inr content"
    and "encoder env content = Inr v"
    and "length (str_split (CHR ''/'') k) < 3"
  shows "process_file env data w =
     (Inr (error_body (''Invalid file path: '' @ k), 400),
      log_call (Model_encode content)
        (log_call (S3_get_object (dict_get data ''bucket_name'') (JStr k)) w))"
proof -
  have key: "truthy (dict_get data ''file_key'')" using assms(2,3) by simp
  show ?thesis
    using assms(2,4-) by (simp add: process_file_front [OF assms(1) key] front_defs)
qed

lemma long_key_stored:
  assumes "truthy (dict_get data ''bucket_name'')" and "dict_get data ''file_key'' = JStr k"
    and "s3_objects env (dict_get data ''bucket_name'') (JStr k) = Inr body"
    and "utf8_decode env body = Inr content"
    and "encoder env content = Inr v"
    and "3 \<le> length (str_split (CHR ''/'') k)"
  shows "process_file env data w =
     insert_into_milvus env k (str_split (CHR ''/'') k) (wrap_vector v)
       (log_call (Model_encode content)
         (log_call (S3_get_object (dict_get data ''bucket_name'') (JStr k)) w))"
proof -
  have "k \<noteq> []" using assms(6) by auto
  then have key: "truthy (dict_get data ''file_key'')" using assms(2) by simp
  show ?thesis
    using assms(2-) by (simp add: process_file_front [OF assms(1) key] front_defs)
qed

section \<open>The presence check\<close>

text \<open>
  Claim C3. When \<open>bucket_name\<close> or \<open>file_key\<close> is missing from the JSON body, the
  handler answers 400 with the body \<open>{"error": "Missing bucket_name or file_key"}\<close>
  and leaves the world as it was: no call to the object store, to the model or to
  the vector database is issued.
\<close>

theorem missing_field_is_client_error:
  assumes "data ''bucket_name'' = None \<or> data ''file_key'' = None"
  shows "process_file env data w =
           (Inr (JObj [(''error'', JStr ''Missing bucket_name or file_key'')], 400), w)
         \<and> issued env data w = []"
proof -
  have "\<not> truthy (dict_get data ''bucket_name'') \<or> \<not> truthy (dict_get data ''file_key'')"
    using assms by (auto simp: dict_get_def)
  then have "process_file env data w =
      (Inr (error_body ''Missing bucket_name or file_key'', 400), w)"
    by (rule process_file_missing)
  then show ?thesis by (simp add: issued_def new_calls_def error_body_def)
qed

theorem missing_field_is_client_error_witness:
  "request_no_bucket ''bucket_name'' = None
   \<and> process_file env_demo request_no_bucket world_empty =
       (Inr (JObj [(''error'', JStr ''Missing bucket_name or file_key'')], 400), world_empty)
   \<and> issued env_demo request_no_bucket world_empty = []"
proof -
  have absent: "request_no_bucket ''bucket_name'' = None"
    by (simp add: request_no_bucket_def)
  then have h: "request_no_bucket ''bucket_name'' = None \<or> request_no_bucket ''file_key'' = None"
    by simp
  show ?thesis
    using absent missing_field_is_client_error [OF h, of env_demo world_empty]
    by simp
qed

text \<open>
  Claim C9. A \<open>bucket_name\<close> or \<open>file_key\<close> that is present but is the empty string
  is treated as a missing one: the check tests the truth value, so the answer is the
  same 400 and no call is issued.
\<close>

theorem empty_string_is_missing:
  assumes "data ''bucket_name'' = Some (JStr []) \<or> data ''file_key'' = Some (JStr [])"
  shows "process_file env data w =
           (Inr (JObj [(''error'', JStr ''Missing bucket_name or file_key'')], 400), w)
         \<and> issued env data w = []"
proof -
  have "\<not> truthy (dict_get data ''bucket_name'') \<or> \<not> truthy (dict_get data ''file_key'')"
    using assms by (auto simp: dict_get_def)
  then have "process_file env data w =
      (Inr (error_body ''Missing bucket_name or file_key'', 400), w)"
    by (rule process_file_missing)
  then show ?thesis by (simp add: issued_def new_calls_def error_body_def)
qed

theorem empty_string_is_missing_witness:
  "request ''docs'' [] ''file_key'' = Some (JStr [])
   \<and> process_file env_demo (request ''docs'' []) world_empty =
       (Inr (JObj [(''error'', JStr ''Missing bucket_name or file_key'')], 400), world_empty)
   \<and> issued env_demo (request ''docs'' []) world_empty = []"
proof -
  have empty: "request ''docs'' [] ''file_key'' = Some (JStr [])"
    by (simp add: request_def)
  then have h: "request ''docs'' [] ''bucket_name'' = Some (JStr [])
             \<or> request ''docs'' [] ''file_key'' = Some (JStr [])"
    by simp
  show ?thesis
    using empty empty_string_is_missing [OF h, of env_demo world_empty]
    by simp
qed

section \<open>The path check\<close>

lemma new_calls_log: "new_calls w (log_call c w) = [c]"
  by (simp add: new_calls_def log_call_def)

lemma new_calls_log2: "new_calls w (log_call c' (log_call c w)) = [c, c']"
  by (simp add: new_calls_def log_call_def)

lemma collections_log: "collections (log_call c w) = collections w"
  by (simp add: log_call_def)

text \<open>
  Claim C1 as stated does not hold: the path check comes after the fetch and the
  embedding, so a key of one segment is answered with 400 only after both calls were
  issued, and when the fetch fails the answer is no 400 at all.
\<close>

theorem short_key_no_calls_counterexample:
  "length (str_split (CHR ''/'') ''onlyonesegment'') = 1
   \<and> process_file env_demo (request ''docs'' ''onlyonesegment'') world_empty =
       (Inr (JObj [(''error'', JStr ''Invalid file path: onlyonesegment'')], 400),
        \<lparr>collections = Map.empty,
         trace = [S3_get_object (JStr ''docs'') (JStr ''onlyonesegment''), Model_encode ''hi'']\<rparr>)
   \<and> issued env_demo (request ''docs'' ''onlyonesegment'') world_empty =
       [S3_get_object (JStr ''docs'') (JStr ''onlyonesegment''), Model_encode ''hi'']
   \<and> fst (process_file env_demo (request ''nodocs'' ''onlyonesegment'') world_empty) =
       Inl (Exn ''NoSuchBucket'' ''The specified bucket does not exist'')"
proof -
  have b: "dict_get (request ''docs'' ''onlyonesegment'') ''bucket_name'' = JStr ''docs''"
    and fk: "dict_get (request ''docs'' ''onlyonesegment'') ''file_key'' = JStr ''onlyonesegment''"
    and b': "dict_get (request ''nodocs'' ''onlyonesegment'') ''bucket_name'' = JStr ''nodocs''"
    and fk': "dict_get (request ''nodocs'' ''onlyonesegment'') ''file_key'' = JStr ''onlyonesegment''"
    by (simp_all add: dict_get_def request_def)
  have run: "process_file env_demo (request ''docs'' ''onlyonesegment'') world_empty =
      (Inr (error_body (''Invalid file path: '' @ ''onlyonesegment''), 400),
       log_call (Model_encode ''hi'')
         (log_call (S3_get_object (dict_get (request ''docs'' ''onlyonesegment'') ''bucket_name'')
            (JStr ''onlyonesegment'')) world_empty))"
    by (rule short_key_rejected [where body = "[104, 105]" and v = "Ndarray [1, 2, 3]"])
      (simp_all add: b fk env_demo_def)
  have fails: "process_file env_demo (request ''nodocs'' ''onlyonesegment'') world_empty =
      (Inl (Exn ''NoSuchBucket'' ''The specified bucket does not exist''),
       log_call (S3_get_object (dict_get (request ''nodocs'' ''onlyonesegment'') ''bucket_name'')
          (dict_get (request ''nodocs'' ''onlyonesegment'') ''file_key'')) world_empty)"
    by (rule fetch_raises) (simp_all add: b' fk' env_demo_def)
  show ?thesis
    unfolding issued_def run fails
    by (simp add: b new_calls_def log_call_def world_empty_def error_body_def)
qed

text \<open>
  Claim C1, amended. For a request with both fields present whose \<open>file_key\<close> has
  fewer than 3 segments, no call to the vector database is issued and its collections
  stay as they were; the fetch is the first call issued, on every such request, and
  when fetch, decode and embedding succeed the two calls issued are the fetch and the
  embedding and the answer is 400 with the body
  \<open>{"error": "Invalid file path: <file_key>"}\<close>.
\<close>

theorem short_key_rejected_before_database:
  assumes "data ''bucket_name'' = Some b" and "truthy b"
    and "data ''file_key'' = Some (JStr k)" and "k \<noteq> []"
    and "length (str_split (CHR ''/'') k) < 3"
  shows "\<not> list_ex is_milvus_call (issued env data w)
     \<and> collections (snd (process_file env data w)) = collections w
     \<and> (\<exists>rest. issued env data w = S3_get_object b (JStr k) # rest)
     \<and> (\<forall>body content v.
          s3_objects env b (JStr k) = Inr body \<longrightarrow> utf8_decode env body = Inr content \<longrightarrow>
          encoder env content = Inr v \<longrightarrow>
            fst (process_file env data w) =
              Inr (JObj [(''error'', JStr (''Invalid file path: '' @ k))], 400)
            \<and> issued env data w = [S3_get_object b (JStr k), Model_encode content])"
proof -
  have b: "dict_get data ''bucket_name'' = b" and fk: "dict_get data ''file_key'' = JStr k"
    using assms(1,3) by (simp_all add: dict_get_def)
  have tb: "truthy (dict_get data ''bucket_name'')" and tk: "truthy (dict_get data ''file_key'')"
    using assms(2,4) b fk by simp_all
  have answered: "fst (process_file env data w) =
        Inr (JObj [(''error'', JStr (''Invalid file path: '' @ k))], 400)
      \<and> issued env data w = [S3_get_object b (JStr k), Model_encode content]"
    if "s3_objects env b (JStr k) = Inr body" and "utf8_decode env body = Inr content"
      and "encoder env content = Inr v" for body content v
    using short_key_rejected [where env = env and w = w and body = body, OF tb fk assms(4) _ that(2,3) assms(5)] that(1) b
    by (simp add: issued_def new_calls_log2 error_body_def)
  have quiet: "\<not> list_ex is_milvus_call (issued env data w)
      \<and> collections (snd (process_file env data w)) = collections w
      \<and> (\<exists>rest. issued env data w = S3_get_object b (JStr k) # rest)"
  proof (cases "s3_objects env b (JStr k)")
    case (Inl e)
    then show ?thesis
      using fetch_raises [where env = env and w = w and e = e, OF tb tk] b fk
      by (simp add: issued_def new_calls_log collections_log)
  next
    case body: (Inr body)
    show ?thesis
    proof (cases "utf8_decode env body")
      case (Inl e)
      then show ?thesis
        using decode_raises [where env = env and w = w and e = e and body = body, OF tb tk] body b fk
        by (simp add: issued_def new_calls_log collections_log)
    next
      case decoded: (Inr content)
      show ?thesis
      proof (cases "encoder env content")
        case (Inl e)
        then show ?thesis
          using encode_raises [where env = env and w = w and e = e and body = body and content = content, OF tb tk] body decoded b fk
          by (simp add: issued_def new_calls_log2 collections_log)
      next
        case (Inr v)
        then show ?thesis
          using short_key_rejected [where env = env and w = w and body = body, OF tb fk assms(4) _ decoded Inr assms(5)] body b
          by (simp add: issued_def new_calls_log2 collections_log)
      qed
    qed
  qed
  from quiet answered show ?thesis by blast
qed

theorem short_key_rejected_before_database_witness:
  "\<not> list_ex is_milvus_call (issued env_demo (request ''docs'' ''onlyonesegment'') world_empty)
   \<and> collections (snd (process_file env_demo (request ''docs'' ''onlyonesegment'') world_empty)) =
       collections world_empty
   \<and> fst (process_file env_demo (request ''docs'' ''onlyonesegment'') world_empty) =
       Inr (JObj [(''error'', JStr ''Invalid file path: onlyonesegment'')], 400)
   \<and> issued env_demo (request ''docs'' ''onlyonesegment'') world_empty =
       [S3_get_object (JStr ''docs'') (JStr ''onlyonesegment''), Model_encode ''hi'']
   \<and> hd (issued env_demo (request ''docs'' ''onlyonesegment'') world_empty) =
       S3_get_object (JStr ''docs'') (JStr ''onlyonesegment'')"
proof -
  have h1: "request ''docs'' ''onlyonesegment'' ''bucket_name'' = Some (JStr ''docs'')"
    and h3: "request ''docs'' ''onlyonesegment'' ''file_key'' = Some (JStr ''onlyonesegment'')"
    by (simp_all add: request_def)
  have h2: "truthy (JStr ''docs'')" and h4: "''onlyonesegment'' \<noteq> []"
    and h5: "length (str_split (CHR ''/'') ''onlyonesegment'') < 3"
    by simp_all
  have s3: "s3_objects env_demo (JStr ''docs'') (JStr ''onlyonesegment'') = Inr [104, 105]"
    and dec: "utf8_decode env_demo [104, 105] = Inr ''hi''"
    and enc: "encoder env_demo ''hi'' = Inr (Ndarray [1, 2, 3])"
    by (simp_all add: env_demo_def)
  show ?thesis
    using short_key_rejected_before_database [where env = env_demo and w = world_empty, OF h1 h2 h3 h4 h5]
      s3 dec enc
    by auto
qed

section \<open>The runs of the handler\<close>

lemma wrap_vector_numbers: "wrap_vector v = [numbers v]"
  by (cases v) (simp_all add: wrap_vector_def tolist_def)

lemma has_collection_trace:
  "trace (snd (utility_has_collection env n w)) = trace w @ [Has_collection n]"
  by (simp add: utility_has_collection_def milvus_call_def log_call_def split: option.splits)

lemma extends_after_first:
  assumes "\<And>x w'. m w = (Inr x, w') \<Longrightarrow> extends S w' (snd (f x w'))"
  shows "extends S (snd (m w)) (snd (bind_io m f w))"
proof (cases "m w")
  case (Pair r w')
  then show ?thesis
    using assms [of _ w'] by (cases r) (simp_all add: bind_io_def extends_refl)
qed

lemma create_or_get_collection_first_call:
  "\<exists>rest. trace (snd (create_or_get_collection env p s w)) =
     trace w @ Has_collection (full_collection_name p s) # rest"
proof -
  have "extends UNIV (snd (utility_has_collection env (full_collection_name p s) w))
          (snd (create_or_get_collection env p s w))"
    unfolding create_or_get_collection_def Let_def
    by (rule extends_after_first)
      (auto intro!: extends_bind extends_new extends_num extends_return)
  then show ?thesis
    by (auto simp: extends_def has_collection_trace)
qed

lemma insert_into_milvus_first_call:
  "\<exists>rest. new_calls w (snd (insert_into_milvus env key parts vector w)) =
     Has_collection (full_collection_name (parts ! 0) (parts ! 1)) # rest"
proof -
  have "extends UNIV (snd (create_or_get_collection env (parts ! 0) (parts ! 1) w))
          (snd (insert_into_milvus env key parts vector w))"
    unfolding insert_into_milvus_def
    by (rule extends_after_first)
      (auto intro!: extends_bind extends_try extends_num extends_insert extends_flush
        extends_return)
  then show ?thesis
    using create_or_get_collection_first_call [of env "parts ! 0" "parts ! 1" w]
    by (auto simp: extends_def new_calls_def)
qed

lemma insert_into_milvus_response:
  assumes "fst (insert_into_milvus env key parts vector w) = Inr r"
  shows "r = (message_body (''Successfully inserted vector for '' @ key), 200)
     \<or> (\<exists>e. r = (error_body (''Error inserting vector: '' @ exn_str e), 500))"
  using assms
  by (auto simp: insert_into_milvus_def bind_io_alt try_except_alt return_io_def
      split: sum.splits)

text \<open>
  A run either stops before the vector database, having issued at most the fetch and the
  embedding, or it fetched, decoded and embedded with success, found a key of 3
  segments or more and went on to the insertion.
\<close>

lemma process_file_shape:
  fixes env :: "('b, 'f) env" and data :: "string \<rightharpoonup> json"
  defines "b \<equiv> dict_get data ''bucket_name''" and "fk \<equiv> dict_get data ''file_key''"
  shows "(collections (snd (process_file env data w)) = collections w
          \<and> (\<forall>r. fst (process_file env data w) = Inr r \<longrightarrow> snd r = 400)
          \<and> (\<forall>c \<in> set (issued env data w).
                c = S3_get_object b fk
                \<or> (\<exists>body. s3_objects env b fk = Inr body
                     \<and> (\<exists>content. utf8_decode env body = Inr content \<and> c = Model_encode content))))
       \<or> (\<exists>body content v k.
            truthy b \<and> fk = JStr k \<and> s3_objects env b (JStr k) = Inr body
            \<and> utf8_decode env body = Inr content \<and> encoder env content = Inr v
            \<and> 3 \<le> length (str_split (CHR ''/'') k)
            \<and> process_file env data w =
                insert_into_milvus env k (str_split (CHR ''/'') k) (wrap_vector v)
                  (log_call (Model_encode content) (log_call (S3_get_object b (JStr k)) w)))"
proof (cases "truthy b \<and> truthy fk")
  case False
  then have "process_file env data w =
      (Inr (error_body ''Missing bucket_name or file_key'', 400), w)"
    unfolding b_def fk_def by (intro process_file_missing) simp
  then show ?thesis by (simp add: issued_def new_calls_def)
next
  case True
  then have tb: "truthy (dict_get data ''bucket_name'')"
    and tk: "truthy (dict_get data ''file_key'')"
    by (simp_all add: b_def fk_def)
  show ?thesis
  proof (cases "s3_objects env b fk")
    case (Inl e)
    then show ?thesis
      using fetch_raises [where env = env and w = w and e = e, OF tb tk]
      by (simp add: b_def fk_def issued_def new_calls_log collections_log)
  next
    case fetched: (Inr body)
    show ?thesis
    proof (cases "utf8_decode env body")
      case (Inl e)
      then show ?thesis
        using decode_raises [where env = env and w = w and e = e and body = body, OF tb tk]
          fetched
        by (simp add: b_def fk_def issued_def new_calls_log collections_log)
    next
      case decoded: (Inr content)
      show ?thesis
      proof (cases "encoder env content")
        case (Inl e)
        then show ?thesis
          using encode_raises [where env = env and w = w and e = e and body = body
              and content = content, OF tb tk] fetched decoded
          by (simp add: b_def fk_def issued_def new_calls_log2 collections_log)
      next
        case encoded: (Inr v)
        show ?thesis
        proof (cases "\<exists>k. fk = JStr k")
          case False
          then obtain e where "process_file env data w =
              (Inl e, log_call (Model_encode content) (log_call (S3_get_object b fk) w))"
            using split_raises [where env = env and w = w and body = body
                and content = content and v = v, OF tb tk] fetched decoded encoded
            by (auto simp: b_def fk_def)
          then show ?thesis
            using fetched decoded
            by (simp add: issued_def new_calls_log2 collections_log)
        next
          case True
          then obtain k where k: "fk = JStr k" by blast
          then have nonempty: "k \<noteq> []" using True tk by (simp add: fk_def)
          show ?thesis
          proof (cases "length (str_split (CHR ''/'') k) < 3")
            case True
            then show ?thesis
              using short_key_rejected [where env = env and w = w and body = body
                  and content = content and v = v and k = k, OF tb _ nonempty]
                fetched decoded encoded k
              by (simp add: b_def fk_def issued_def new_calls_log2 collections_log)
          next
            case False
            then have "process_file env data w =
                insert_into_milvus env k (str_split (CHR ''/'') k) (wrap_vector v)
                  (log_call (Model_encode content) (log_call (S3_get_object b (JStr k)) w))"
              using long_key_stored [where env = env and w = w and body = body
                  and content = content and v = v and k = k, OF tb]
                fetched decoded encoded k
              by (simp add: b_def fk_def)
            then show ?thesis
              using fetched decoded encoded k False True tb
              by (auto simp: b_def)
          qed
        qed
      qed
    qed
  qed
qed

lemma new_calls_through:
  "new_calls w (log_call c' (log_call c w)) = [c, c'] \<Longrightarrow> extends S (log_call c' (log_call c w)) w'
   \<Longrightarrow> new_calls w w' = c # c' # new_calls (log_call c' (log_call c w)) w'"
  by (auto simp: extends_def new_calls_def log_call_def)

text \<open>What a run that reaches the insertion has issued, and what it did to the collections.\<close>

lemma stored_run:
  fixes env :: "('b, 'f) env" and parts :: "string list"
  defines "n \<equiv> full_collection_name (parts ! 0) (parts ! 1)"
  assumes "process_file env data w =
     insert_into_milvus env k parts vector (log_call c' (log_call c w))"
  shows "\<exists>rest. issued env data w = c # c' # Has_collection n # rest
           \<and> set rest \<subseteq> milvus_calls_for n vector"
    and "db_step n w (snd (process_file env data w))"
    and "collections w n \<noteq> None \<Longrightarrow> \<not> list_ex is_creation_call (drop 2 (issued env data w))"
proof -
  let ?w2 = "log_call c' (log_call c w)"
  let ?w' = "snd (insert_into_milvus env k parts vector ?w2)"
  have ext: "extends (milvus_calls_for n vector) ?w2 ?w'"
    unfolding n_def by (rule extends_insert_into_milvus)
  have through: "new_calls w ?w' = c # c' # new_calls ?w2 ?w'"
    using new_calls_log2 ext by (rule new_calls_through)
  obtain rest where rest: "new_calls ?w2 ?w' = Has_collection n # rest"
    using insert_into_milvus_first_call [of ?w2 env k parts vector] by (auto simp: n_def)
  have "set (new_calls ?w2 ?w') \<subseteq> milvus_calls_for n vector"
    using ext by (rule extends_new_calls)
  then show "\<exists>rest. issued env data w = c # c' # Has_collection n # rest
           \<and> set rest \<subseteq> milvus_calls_for n vector"
    using through rest by (simp add: issued_def assms(2))
  have "db_step n ?w2 ?w'"
    unfolding n_def by (rule db_step_insert_into_milvus)
  moreover have "db_step n w ?w2"
    by (rule db_step_same) (simp add: collections_log)
  ultimately show "db_step n w (snd (process_file env data w))"
    unfolding assms(2) by (rule db_step_trans [rotated])
  show "\<not> list_ex is_creation_call (drop 2 (issued env data w))"
    if "collections w n \<noteq> None"
  proof -
    have "collections ?w2 (full_collection_name (parts ! 0) (parts ! 1)) \<noteq> None"
      using that by (simp add: collections_log n_def)
    then have "extends {c. \<not> is_creation_call c} ?w2 ?w'"
      by (rule extends_insert_into_existing)
    then have "set (new_calls ?w2 ?w') \<subseteq> {c. \<not> is_creation_call c}"
      by (rule extends_new_calls)
    then show ?thesis
      using through by (auto simp: issued_def assms(2) list_ex_iff)
  qed
qed

section \<open>What the vector database is asked\<close>

text \<open>
  Claim C2. Once the embedding of a request is computed, every insert the request
  issues is passed one column holding one row, and that row is the embedding: the
  numbers of the array or of the native list, whichever the model handed back.
\<close>

theorem insert_gets_one_row_batch:
  assumes "s3_objects env (dict_get data ''bucket_name'') (dict_get data ''file_key'') = Inr body"
    and "utf8_decode env body = Inr content"
    and "encoder env content = Inr v"
  shows "\<forall>c \<in> set (issued env data w). \<forall>n d. c = Insert n d \<longrightarrow> d = [[numbers v]]"
proof (intro ballI allI impI)
  fix c n d
  assume c: "c \<in> set (issued env data w)" and ins: "c = Insert n d"
  from process_file_shape [of env data w] show "d = [[numbers v]]"
  proof (elim disjE conjE exE)
    assume "\<forall>c \<in> set (issued env data w).
        c = S3_get_object (dict_get data ''bucket_name'') (dict_get data ''file_key'')
        \<or> (\<exists>body. s3_objects env (dict_get data ''bucket_name'') (dict_get data ''file_key'') = Inr body
             \<and> (\<exists>content. utf8_decode env body = Inr content \<and> c = Model_encode content))"
    with c ins show ?thesis by auto
  next
    fix body' content' v' k
    assume fk: "dict_get data ''file_key'' = JStr k"
      and "s3_objects env (dict_get data ''bucket_name'') (JStr k) = Inr body'"
      and "utf8_decode env body' = Inr content'" and "encoder env content' = Inr v'"
      and run: "process_file env data w =
          insert_into_milvus env k (str_split (CHR ''/'') k) (wrap_vector v')
            (log_call (Model_encode content')
              (log_call (S3_get_object (dict_get data ''bucket_name'') (JStr k)) w))"
    with assms have v: "v' = v" by simp
    from stored_run(1) [OF run] c ins show ?thesis
      by (auto simp: milvus_calls_for_def v wrap_vector_numbers)
  qed
qed

theorem insert_gets_one_row_batch_witness:
  "Insert ''teamA_notes'' [[[1, 2, 3]]]
     \<in> set (issued env_demo (request ''docs'' ''teamA/notes/readme.txt'') world_empty)
   \<and> encoder env_demo ''hi'' = Inr (Ndarray [1, 2, 3])
   \<and> Insert ''teamA_notes'' [[[1, 2, 3]]]
     \<in> set (issued env_native (request ''docs'' ''teamA/notes/readme.txt'') world_empty)
   \<and> encoder env_native ''hi'' = Inr (Native [1, 2, 3])
   \<and> [[[1, 2, 3]]] = [[numbers (Ndarray [1, 2, 3 :: int])]]
   \<and> [[[1, 2, 3]]] = [[numbers (Native [1, 2, 3 :: int])]]"
proof -
  let ?req = "request ''docs'' ''teamA/notes/readme.txt''"
  have b: "dict_get ?req ''bucket_name'' = JStr ''docs''"
    and fk: "dict_get ?req ''file_key'' = JStr ''teamA/notes/readme.txt''"
    by (simp_all add: dict_get_def request_def)
  have s3: "s3_objects env_demo (dict_get ?req ''bucket_name'') (dict_get ?req ''file_key'') = Inr [104, 105]"
    and s3': "s3_objects env_native (dict_get ?req ''bucket_name'') (dict_get ?req ''file_key'') = Inr [104, 105]"
    unfolding b fk by (simp_all add: env_demo_def env_native_def)
  have dec: "utf8_decode env_demo [104, 105] = Inr ''hi''"
    and dec': "utf8_decode env_native [104, 105] = Inr ''hi''"
    by (simp_all add: env_demo_def env_native_def)
  have enc: "encoder env_demo ''hi'' = Inr (Ndarray [1, 2, 3])"
    and enc': "encoder env_native ''hi'' = Inr (Native [1, 2, 3])"
    by (simp_all add: env_demo_def env_native_def)
  have run: "issued env_demo ?req world_empty =
      [S3_get_object (JStr ''docs'') (JStr ''teamA/notes/readme.txt''), Model_encode ''hi'',
       Has_collection ''teamA_notes'',
       Collection_init ''teamA_notes'' (Some collection_schema_new),
       Num_entities ''teamA_notes'', Insert ''teamA_notes'' [[[1, 2, 3]]],
       Flush ''teamA_notes'', Num_entities ''teamA_notes'']"
    by (simp add: run_defs)
  have run': "issued env_native ?req world_empty =
      [S3_get_object (JStr ''docs'') (JStr ''teamA/notes/readme.txt''), Model_encode ''hi'',
       Has_collection ''teamA_notes'',
       Collection_init ''teamA_notes'' (Some collection_schema_new),
       Num_entities ''teamA_notes'', Insert ''teamA_notes'' [[[1, 2, 3]]],
       Flush ''teamA_notes'', Num_entities ''teamA_notes'']"
    by (simp add: run_defs)
  show ?thesis
    using insert_gets_one_row_batch [OF s3 dec enc, of world_empty]
      insert_gets_one_row_batch [OF s3' dec' enc', of world_empty] enc enc'
    by (simp add: run run')
qed

lemma milvus_calls_for_target:
  "c \<in> milvus_calls_for n vector \<Longrightarrow> call_target c = Some n \<and> is_milvus_call c"
  by (auto simp: milvus_calls_for_def)

lemma issued_targets:
  assumes "dict_get data ''file_key'' = JStr k"
    and "c \<in> set (issued env data w)" and "is_milvus_call c"
  shows "call_target c =
    Some (full_collection_name (str_split (CHR ''/'') k ! 0) (str_split (CHR ''/'') k ! 1))"
  using process_file_shape [of env data w]
proof (elim disjE conjE exE)
  assume "\<forall>c \<in> set (issued env data w).
      c = S3_get_object (dict_get data ''bucket_name'') (dict_get data ''file_key'')
      \<or> (\<exists>body. s3_objects env (dict_get data ''bucket_name'') (dict_get data ''file_key'') = Inr body
           \<and> (\<exists>content. utf8_decode env body = Inr content \<and> c = Model_encode content))"
  with assms(2,3) show ?thesis by auto
next
  fix body content v k'
  assume "dict_get data ''file_key'' = JStr k'"
    and run: "process_file env data w =
        insert_into_milvus env k' (str_split (CHR ''/'') k') (wrap_vector v)
          (log_call (Model_encode content)
            (log_call (S3_get_object (dict_get data ''bucket_name'') (JStr k')) w))"
  with assms(1) have k: "k' = k" by simp
  from stored_run(1) [OF run] obtain rest
    where iss: "issued env data w =
        S3_get_object (dict_get data ''bucket_name'') (JStr k') # Model_encode content
          # Has_collection (full_collection_name (str_split (CHR ''/'') k' ! 0)
              (str_split (CHR ''/'') k' ! 1)) # rest"
      and sub: "set rest \<subseteq> milvus_calls_for
          (full_collection_name (str_split (CHR ''/'') k' ! 0) (str_split (CHR ''/'') k' ! 1))
          (wrap_vector v)"
    by blast
  from assms(2,3) iss
  have "c = Has_collection (full_collection_name (str_split (CHR ''/'') k' ! 0)
              (str_split (CHR ''/'') k' ! 1)) \<or> c \<in> set rest"
    by auto
  then show ?thesis
    using milvus_calls_for_target [OF subsetD [OF sub]] by (auto simp: k)
qed

lemma issued_first_three:
  assumes "truthy (dict_get data ''bucket_name'')" and "dict_get data ''file_key'' = JStr k"
    and "s3_objects env (dict_get data ''bucket_name'') (JStr k) = Inr body"
    and "utf8_decode env body = Inr content"
    and "encoder env content = Inr v"
    and "3 \<le> length (str_split (CHR ''/'') k)"
  shows "take 3 (issued env data w) =
    [S3_get_object (dict_get data ''bucket_name'') (JStr k), Model_encode content,
     Has_collection (full_collection_name (str_split (CHR ''/'') k ! 0) (str_split (CHR ''/'') k ! 1))]"
  using stored_run(1) [OF long_key_stored [where env = env and w = w, OF assms]]
  by auto

text \<open>
  Claim C4. For a \<open>file_key\<close> of 3 segments or more, every call the request makes to
  the vector database names the collection \<open>first segment + "_" + second segment\<close>,
  and the lookup of that collection is the first of them. The name depends on the key
  alone: another request with the same key, whatever its bucket, its collaborators and
  the state of the world, addresses the same collection.
\<close>

theorem collection_identity_from_key:
  assumes "data ''file_key'' = Some (JStr k)" and "data' ''file_key'' = Some (JStr k)"
    and "3 \<le> length (str_split (CHR ''/'') k)"
  shows "(\<forall>c \<in> set (issued env data w). is_milvus_call c \<longrightarrow>
            call_target c = Some (str_split (CHR ''/'') k ! 0 @ ''_'' @ str_split (CHR ''/'') k ! 1))
     \<and> (\<forall>c \<in> set (issued env data w). \<forall>c' \<in> set (issued env' data' w').
            is_milvus_call c \<longrightarrow> is_milvus_call c' \<longrightarrow> call_target c = call_target c')
     \<and> (\<forall>b body content v.
            data ''bucket_name'' = Some b \<longrightarrow> truthy b \<longrightarrow> s3_objects env b (JStr k) = Inr body \<longrightarrow>
            utf8_decode env body = Inr content \<longrightarrow> encoder env content = Inr v \<longrightarrow>
            take 3 (issued env data w) =
              [S3_get_object b (JStr k), Model_encode content,
               Has_collection (str_split (CHR ''/'') k ! 0 @ ''_'' @ str_split (CHR ''/'') k ! 1)])"
proof -
  have fk: "dict_get data ''file_key'' = JStr k" and fk': "dict_get data' ''file_key'' = JStr k"
    using assms(1,2) by (simp_all add: dict_get_def)
  have first: "take 3 (issued env data w) =
      [S3_get_object b (JStr k), Model_encode content,
       Has_collection (str_split (CHR ''/'') k ! 0 @ ''_'' @ str_split (CHR ''/'') k ! 1)]"
    if "data ''bucket_name'' = Some b" and "truthy b" and "s3_objects env b (JStr k) = Inr body"
      and "utf8_decode env body = Inr content" and "encoder env content = Inr v"
    for b body content v
  proof -
    have b: "dict_get data ''bucket_name'' = b" using that(1) by (simp add: dict_get_def)
    show ?thesis
      using issued_first_three [where env = env and w = w and data = data and k = k
          and body = body and content = content and v = v] that(2-) fk assms(3)
      by (simp add: b full_collection_name_def)
  qed
  have named: "\<forall>c \<in> set (issued env data w). is_milvus_call c \<longrightarrow>
      call_target c = Some (str_split (CHR ''/'') k ! 0 @ ''_'' @ str_split (CHR ''/'') k ! 1)"
    using issued_targets [where env = env and w = w, OF fk]
    by (auto simp: full_collection_name_def)
  have named': "\<forall>c \<in> set (issued env' data' w'). is_milvus_call c \<longrightarrow>
      call_target c = Some (str_split (CHR ''/'') k ! 0 @ ''_'' @ str_split (CHR ''/'') k ! 1)"
    using issued_targets [where env = env' and w = w', OF fk']
    by (auto simp: full_collection_name_def)
  have same: "\<forall>c \<in> set (issued env data w). \<forall>c' \<in> set (issued env' data' w').
      is_milvus_call c \<longrightarrow> is_milvus_call c' \<longrightarrow> call_target c = call_target c'"
    using named named' by simp
  from named same first show ?thesis by blast
qed

theorem collection_identity_from_key_witness:
  "Has_collection ''teamA_notes''
     \<in> set (issued env_demo (request ''docs'' ''teamA/notes/readme.txt'') world_empty)
   \<and> Collection_init ''teamA_notes'' None
     \<in> set (issued env_native (request ''docs'' ''teamA/notes/readme.txt'')
         (snd (process_file env_demo (request ''docs'' ''teamA/notes/readme.txt'') world_empty)))
   \<and> str_split (CHR ''/'') ''teamA/notes/readme.txt'' = [''teamA'', ''notes'', ''readme.txt'']
   \<and> call_target (Has_collection ''teamA_notes'' :: int call) = Some ''teamA_notes''
   \<and> call_target (Has_collection ''teamA_notes'' :: int call)
       = call_target (Collection_init ''teamA_notes'' None :: int call)
   \<and> take 3 (issued env_demo (request ''docs'' ''teamA/notes/readme.txt'') world_empty) =
       [S3_get_object (JStr ''docs'') (JStr ''teamA/notes/readme.txt''), Model_encode ''hi'',
        Has_collection ''teamA_notes'']"
proof -
  let ?req = "request ''docs'' ''teamA/notes/readme.txt''"
  have fk: "?req ''file_key'' = Some (JStr ''teamA/notes/readme.txt'')"
    and b: "?req ''bucket_name'' = Some (JStr ''docs'')"
    by (simp_all add: request_def)
  have parts: "str_split (CHR ''/'') ''teamA/notes/readme.txt'' = [''teamA'', ''notes'', ''readme.txt'']"
    by simp
  then have long: "3 \<le> length (str_split (CHR ''/'') ''teamA/notes/readme.txt'')"
    by simp
  have first: "Has_collection ''teamA_notes'' \<in> set (issued env_demo ?req world_empty)"
    by (simp add: run_defs)
  have second: "Collection_init ''teamA_notes'' None
      \<in> set (issued env_native ?req (snd (process_file env_demo ?req world_empty)))"
    by (simp add: run_defs)
  have s3: "s3_objects env_demo (JStr ''docs'') (JStr ''teamA/notes/readme.txt'') = Inr [104, 105]"
    and dec: "utf8_decode env_demo [104, 105] = Inr ''hi''"
    and enc: "encoder env_demo ''hi'' = Inr (Ndarray [1, 2, 3])"
    by (simp_all add: env_demo_def)
  show ?thesis
    using collection_identity_from_key [where data = ?req and data' = ?req
        and k = "''teamA/notes/readme.txt''" and env = env_demo and w = world_empty
        and env' = env_native and w' = "snd (process_file env_demo ?req world_empty)",
        OF fk fk long]
      first second b s3 dec enc
    by (simp add: parts)
qed

text \<open>
  Claim C10. The check counts the segments and does not look into them: a key of 3
  segments or more passes it even when its first or second segment is empty, the answer
  is not the 400 of an invalid path, and the collection looked up is named from those
  segments, so \<open>a//file\<close> leads to \<open>a_\<close> and \<open>/b/file\<close> to \<open>_b\<close>.
\<close>

theorem empty_segments_pass_the_check:
  assumes "data ''bucket_name'' = Some b" and "truthy b"
    and "data ''file_key'' = Some (JStr k)"
    and "3 \<le> length (str_split (CHR ''/'') k)"
    and "s3_objects env b (JStr k) = Inr body"
    and "utf8_decode env body = Inr content"
    and "encoder env content = Inr v"
  shows "fst (process_file env data w) \<noteq>
           Inr (JObj [(''error'', JStr (''Invalid file path: '' @ k))], 400)
     \<and> take 3 (issued env data w) =
           [S3_get_object b (JStr k), Model_encode content,
            Has_collection (full_collection_name (str_split (CHR ''/'') k ! 0)
                              (str_split (CHR ''/'') k ! 1))]"
proof -
  have b: "dict_get data ''bucket_name'' = b" and fk: "dict_get data ''file_key'' = JStr k"
    using assms(1,3) by (simp_all add: dict_get_def)
  have tb: "truthy (dict_get data ''bucket_name'')" using assms(2) b by simp
  have run: "process_file env data w =
      insert_into_milvus env k (str_split (CHR ''/'') k) (wrap_vector v)
        (log_call (Model_encode content) (log_call (S3_get_object b (JStr k)) w))"
    using long_key_stored [where env = env and w = w and body = body, OF tb fk _ assms(6,7,4)]
      assms(5) b
    by simp
  have "fst (process_file env data w) \<noteq>
      Inr (JObj [(''error'', JStr (''Invalid file path: '' @ k))], 400)"
    using insert_into_milvus_response [of env k "str_split (CHR ''/'') k" "wrap_vector v"
        "log_call (Model_encode content) (log_call (S3_get_object b (JStr k)) w)"]
    by (auto simp: run error_body_def message_body_def)
  moreover have "take 3 (issued env data w) =
      [S3_get_object b (JStr k), Model_encode content,
       Has_collection (full_collection_name (str_split (CHR ''/'') k ! 0)
                         (str_split (CHR ''/'') k ! 1))]"
    using stored_run(1) [OF run] by auto
  ultimately show ?thesis by simp
qed

theorem empty_segments_pass_the_check_witness:
  "str_split (CHR ''/'') ''a//file'' = [''a'', [], ''file'']
   \<and> full_collection_name ''a'' [] = ''a_''
   \<and> fst (process_file env_demo (request ''docs'' ''a//file'') world_empty) \<noteq>
       Inr (JObj [(''error'', JStr ''Invalid file path: a//file'')], 400)
   \<and> take 3 (issued env_demo (request ''docs'' ''a//file'') world_empty) =
       [S3_get_object (JStr ''docs'') (JStr ''a//file''), Model_encode ''hi'',
        Has_collection ''a_'']
   \<and> str_split (CHR ''/'') ''/b/file'' = [[], ''b'', ''file'']
   \<and> full_collection_name [] ''b'' = ''_b''
   \<and> fst (process_file env_demo (request ''docs'' ''/b/file'') world_empty) \<noteq>
       Inr (JObj [(''error'', JStr ''Invalid file path: /b/file'')], 400)
   \<and> take 3 (issued env_demo (request ''docs'' ''/b/file'') world_empty) =
       [S3_get_object (JStr ''docs'') (JStr ''/b/file''), Model_encode ''hi'',
        Has_collection ''_b'']"
proof -
  have b: "request ''docs'' ''a//file'' ''bucket_name'' = Some (JStr ''docs'')"
    and b': "request ''docs'' ''/b/file'' ''bucket_name'' = Some (JStr ''docs'')"
    and fk: "request ''docs'' ''a//file'' ''file_key'' = Some (JStr ''a//file'')"
    and fk': "request ''docs'' ''/b/file'' ''file_key'' = Some (JStr ''/b/file'')"
    by (simp_all add: request_def)
  have tb: "truthy (JStr ''docs'')" by simp
  have parts: "str_split (CHR ''/'') ''a//file'' = [''a'', [], ''file'']"
    and parts': "str_split (CHR ''/'') ''/b/file'' = [[], ''b'', ''file'']"
    by simp_all
  have long: "3 \<le> length (str_split (CHR ''/'') ''a//file'')"
    and long': "3 \<le> length (str_split (CHR ''/'') ''/b/file'')"
    by (simp_all add: parts parts')
  have s3: "s3_objects env_demo (JStr ''docs'') (JStr ''a//file'') = Inr [104, 105]"
    and s3': "s3_objects env_demo (JStr ''docs'') (JStr ''/b/file'') = Inr [104, 105]"
    and dec: "utf8_decode env_demo [104, 105] = Inr ''hi''"
    and enc: "encoder env_demo ''hi'' = Inr (Ndarray [1, 2, 3])"
    by (simp_all add: env_demo_def)
  show ?thesis
    using empty_segments_pass_the_check [where data = "request ''docs'' ''a//file''"
        and k = "''a//file''" and env = env_demo and w = world_empty,
        OF b tb fk long s3 dec enc]
      empty_segments_pass_the_check [where data = "request ''docs'' ''/b/file''"
        and k = "''/b/file''" and env = env_demo and w = world_empty,
        OF b' tb fk' long' s3' dec enc]
    by (simp add: parts parts' full_collection_name_def)
qed

section \<open>Collections are created once, with one schema\<close>

lemma db_step_new_collection:
  assumes "db_step n0 w w'" and "collections w' n = Some st" and "collections w n = None"
  shows "n = n0 \<and> stored_schema st = collection_schema_new"
proof (cases "n = n0")
  case True
  with assms show ?thesis by (auto simp: db_step_def)
next
  case False
  with assms show ?thesis by (auto simp: db_step_def)
qed

lemma db_step_keeps:
  assumes "db_step n w w'" and "collections w m \<noteq> None"
  shows "collections w' m \<noteq> None"
proof (cases "m = n")
  case True
  with assms show ?thesis by (auto simp: db_step_def)
next
  case False
  with assms show ?thesis by (simp add: db_step_def)
qed

lemma db_step_dom:
  assumes "db_step n w w'"
  shows "dom (collections w') \<subseteq> insert n (dom (collections w))"
proof
  fix m
  assume m: "m \<in> dom (collections w')"
  show "m \<in> insert n (dom (collections w))"
  proof (cases "m = n")
    case True
    then show ?thesis by simp
  next
    case False
    with assms have "collections w' m = collections w m" by (simp add: db_step_def)
    with m show ?thesis by (simp add: dom_def)
  qed
qed

lemma process_file_db_step:
  "\<exists>n. db_step n w (snd (process_file env data w))
     \<and> (\<forall>k. dict_get data ''file_key'' = JStr k \<longrightarrow>
           n = full_collection_name (str_split (CHR ''/'') k ! 0) (str_split (CHR ''/'') k ! 1))"
  using process_file_shape [of env data w]
proof (elim disjE conjE exE)
  assume same: "collections (snd (process_file env data w)) = collections w"
  show ?thesis
  proof (cases "dict_get data ''file_key''")
    case (JStr k)
    have "db_step (full_collection_name (str_split (CHR ''/'') k ! 0) (str_split (CHR ''/'') k ! 1))
        w (snd (process_file env data w))"
      using same by (rule db_step_same)
    with JStr show ?thesis by (intro exI conjI) auto
  qed (use db_step_same [OF same] in auto)
next
  fix body content v k
  assume fk: "dict_get data ''file_key'' = JStr k"
    and run: "process_file env data w =
        insert_into_milvus env k (str_split (CHR ''/'') k) (wrap_vector v)
          (log_call (Model_encode content)
            (log_call (S3_get_object (dict_get data ''bucket_name'') (JStr k)) w))"
  have "db_step (full_collection_name (str_split (CHR ''/'') k ! 0) (str_split (CHR ''/'') k ! 1))
      w (snd (process_file env data w))"
    using run by (rule stored_run(2))
  with fk show ?thesis by (intro exI conjI) auto
qed

lemma creation_call_schema:
  assumes "c \<in> milvus_calls_for n vector" and "c = Collection_init m (Some s)"
  shows "m = n \<and> s = collection_schema_new"
  using assms by (auto simp: milvus_calls_for_def)

lemma issued_creation_call:
  assumes "Collection_init m (Some s) \<in> set (issued env data w)"
  shows "s = collection_schema_new"
  using process_file_shape [of env data w]
proof (elim disjE conjE exE)
  assume "\<forall>c \<in> set (issued env data w).
      c = S3_get_object (dict_get data ''bucket_name'') (dict_get data ''file_key'')
      \<or> (\<exists>body. s3_objects env (dict_get data ''bucket_name'') (dict_get data ''file_key'') = Inr body
           \<and> (\<exists>content. utf8_decode env body = Inr content \<and> c = Model_encode content))"
  with assms show ?thesis by auto
next
  fix body content v k
  assume run: "process_file env data w =
        insert_into_milvus env k (str_split (CHR ''/'') k) (wrap_vector v)
          (log_call (Model_encode content)
            (log_call (S3_get_object (dict_get data ''bucket_name'') (JStr k)) w))"
  from stored_run(1) [OF run] obtain rest
    where iss: "issued env data w =
        S3_get_object (dict_get data ''bucket_name'') (JStr k) # Model_encode content
          # Has_collection (full_collection_name (str_split (CHR ''/'') k ! 0)
              (str_split (CHR ''/'') k ! 1)) # rest"
      and sub: "set rest \<subseteq> milvus_calls_for
          (full_collection_name (str_split (CHR ''/'') k ! 0) (str_split (CHR ''/'') k ! 1))
          (wrap_vector v)"
    by blast
  from assms iss have "Collection_init m (Some s) \<in> set rest" by auto
  with sub show ?thesis by (auto dest: creation_call_schema)
qed

lemma resolved_creation_call:
  assumes "Collection_init m (Some sch)
     \<in> set (new_calls w (snd (create_or_get_collection env p s w)))"
  shows "m = full_collection_name p s \<and> sch = collection_schema_new"
proof -
  have "extends {Has_collection (full_collection_name p s),
            Collection_init (full_collection_name p s) None,
            Collection_init (full_collection_name p s) (Some collection_schema_new),
            Num_entities (full_collection_name p s)} w
          (snd (create_or_get_collection env p s w))"
    by (rule extends_create_or_get_collection) simp
  from extends_new_calls [OF this] assms show ?thesis by auto
qed

text \<open>
  Claim C6. Whenever the lookup \<open>create_or_get_collection\<close>, and so the handler, asks
  for a collection to be created, the schema it passes is the same one: a primary key
  \<open>id\<close> of type INT64 assigned by the database and a float vector \<open>vector\<close> of
  dimension 768. Every collection that a run adds to the database has that schema.
\<close>

theorem one_schema_for_created_collections:
  fixes env :: "('b, 'f) env"
  defines "the_schema \<equiv>
    \<lparr>schema_fields =
       [\<lparr>field_name = ''id'', dtype = INT64, is_primary = True, auto_id = True, dim = None\<rparr>,
        \<lparr>field_name = ''vector'', dtype = FLOAT_VECTOR, is_primary = False, auto_id = False,
         dim = Some 768\<rparr>],
      schema_description = ''Text embeddings collection''\<rparr>"
  shows "(\<forall>c \<in> set (new_calls w (snd (create_or_get_collection env p s w))).
            \<forall>n sch. c = Collection_init n (Some sch) \<longrightarrow>
              n = full_collection_name p s \<and> sch = the_schema)
     \<and> (\<forall>n st. collections (snd (create_or_get_collection env p s w)) n = Some st \<longrightarrow>
            collections w n = None \<longrightarrow>
              n = full_collection_name p s \<and> stored_schema st = the_schema)
     \<and> (\<forall>c \<in> set (issued env data w).
            \<forall>n sch. c = Collection_init n (Some sch) \<longrightarrow> sch = the_schema)
     \<and> (\<forall>n st. collections (snd (process_file env data w)) n = Some st \<longrightarrow>
            collections w n = None \<longrightarrow> stored_schema st = the_schema)"
proof -
  have schema: "the_schema = collection_schema_new"
    by (simp add: the_schema_def collection_schema_new_def fields_def)
  have "n = full_collection_name p s \<and> sch = the_schema"
    if "Collection_init n (Some sch)
      \<in> set (new_calls w (snd (create_or_get_collection env p s w)))" for n sch
    using resolved_creation_call [OF that] by (simp add: schema)
  moreover have "n = full_collection_name p s \<and> stored_schema st = the_schema"
    if "collections (snd (create_or_get_collection env p s w)) n = Some st"
      and "collections w n = None" for n st
    using db_step_new_collection [OF db_step_create_or_get_collection that]
    by (simp add: schema)
  moreover have "sch = the_schema"
    if "Collection_init n (Some sch) \<in> set (issued env data w)" for n sch
    using issued_creation_call [OF that] by (simp add: schema)
  moreover have "stored_schema st = the_schema"
    if "collections (snd (process_file env data w)) n = Some st"
      and "collections w n = None" for n st
  proof -
    obtain n0 where "db_step n0 w (snd (process_file env data w))"
      using process_file_db_step [of w env data] by blast
    from db_step_new_collection [OF this that] show ?thesis by (simp add: schema)
  qed
  ultimately show ?thesis by blast
qed

theorem one_schema_for_created_collections_witness:
  "Collection_init ''teamA_notes''
      (Some \<lparr>schema_fields =
         [\<lparr>field_name = ''id'', dtype = INT64, is_primary = True, auto_id = True, dim = None\<rparr>,
          \<lparr>field_name = ''vector'', dtype = FLOAT_VECTOR, is_primary = False, auto_id = False,
           dim = Some 768\<rparr>],
        schema_description = ''Text embeddings collection''\<rparr>)
     \<in> set (new_calls world_empty (snd (create_or_get_collection env_demo ''teamA'' ''notes'' world_empty)))
   \<and> collections world_empty ''teamA_notes'' = None
   \<and> collections (snd (create_or_get_collection env_demo ''teamA'' ''notes'' world_empty)) ''teamA_notes''
       = Some \<lparr>stored_schema = collection_schema_new, stored_rows = []\<rparr>
   \<and> Collection_init ''teamA_notes'' (Some collection_schema_new)
     \<in> set (issued env_demo (request ''docs'' ''teamA/notes/readme.txt'') world_empty)
   \<and> collections (snd (process_file env_demo (request ''docs'' ''teamA/notes/readme.txt'') world_empty))
       ''teamA_notes''
       = Some \<lparr>stored_schema = collection_schema_new, stored_rows = [[1, 2, 3]]\<rparr>
   \<and> collection_schema_new =
       \<lparr>schema_fields =
         [\<lparr>field_name = ''id'', dtype = INT64, is_primary = True, auto_id = True, dim = None\<rparr>,
          \<lparr>field_name = ''vector'', dtype = FLOAT_VECTOR, is_primary = False, auto_id = False,
           dim = Some 768\<rparr>],
        schema_description = ''Text embeddings collection''\<rparr>"
proof -
  have created: "new_calls world_empty (snd (create_or_get_collection env_demo ''teamA'' ''notes'' world_empty))
      = [Has_collection ''teamA_notes'', Collection_init ''teamA_notes'' (Some collection_schema_new)]"
    by (simp add: run_defs)
  have stored: "collections (snd (create_or_get_collection env_demo ''teamA'' ''notes'' world_empty))
      ''teamA_notes'' = Some \<lparr>stored_schema = collection_schema_new, stored_rows = []\<rparr>"
    by (simp add: run_defs)
  have run: "Collection_init ''teamA_notes'' (Some collection_schema_new)
      \<in> set (issued env_demo (request ''docs'' ''teamA/notes/readme.txt'') world_empty)"
    by (simp add: run_defs)
  have after: "collections (snd (process_file env_demo (request ''docs'' ''teamA/notes/readme.txt'') world_empty))
      ''teamA_notes'' = Some \<lparr>stored_schema = collection_schema_new, stored_rows = [[1, 2, 3]]\<rparr>"
    by (simp add: run_defs)
  have before: "collections world_empty ''teamA_notes'' = None"
    by (simp add: world_empty_def)
  have called: "Collection_init ''teamA_notes'' (Some collection_schema_new)
      \<in> set (new_calls world_empty
          (snd (create_or_get_collection env_demo ''teamA'' ''notes'' world_empty)))"
    by (simp add: created)
  have shape: "collection_schema_new =
       \<lparr>schema_fields =
         [\<lparr>field_name = ''id'', dtype = INT64, is_primary = True, auto_id = True, dim = None\<rparr>,
          \<lparr>field_name = ''vector'', dtype = FLOAT_VECTOR, is_primary = False, auto_id = False,
           dim = Some 768\<rparr>],
        schema_description = ''Text embeddings collection''\<rparr>"
    using one_schema_for_created_collections [of world_empty env_demo "''teamA''" "''notes''"
        "request ''docs'' ''teamA/notes/readme.txt''"] called
    by blast
  show ?thesis
    using called stored run after before shape by simp
qed

lemma rel_after_first:
  assumes refl: "\<And>a. R a a"
    and rest: "\<And>x w'. m w = (Inr x, w') \<Longrightarrow> R w' (snd (f x w'))"
  shows "R (snd (m w)) (snd (bind_io m f w))"
proof (cases "m w")
  case (Pair r w')
  then show ?thesis
    using rest [of _ w'] by (cases r) (simp_all add: bind_io_def refl)
qed

lemma resolved_collection_exists:
  assumes "fst (create_or_get_collection env p s w) = Inr c"
  shows "collections (snd (create_or_get_collection env p s w)) (full_collection_name p s) \<noteq> None"
  using assms
  by (auto simp: create_or_get_collection_def Let_def bind_io_def return_io_def
      utility_has_collection_def Collection_new_def num_entities_def milvus_call_def
      log_call_def split: option.splits prod.splits sum.splits if_splits)

lemma answered_insertion_has_collection:
  assumes "fst (insert_into_milvus env key parts vector w) = Inr r"
  shows "collections (snd (insert_into_milvus env key parts vector w))
           (full_collection_name (parts ! 0) (parts ! 1)) \<noteq> None"
proof -
  let ?n = "full_collection_name (parts ! 0) (parts ! 1)"
  let ?w1 = "snd (create_or_get_collection env (parts ! 0) (parts ! 1) w)"
  from assms obtain c where "fst (create_or_get_collection env (parts ! 0) (parts ! 1) w) = Inr c"
    by (auto simp: insert_into_milvus_def bind_io_alt split: sum.splits)
  then have there: "collections ?w1 ?n \<noteq> None"
    by (rule resolved_collection_exists)
  have "db_step ?n ?w1 (snd (insert_into_milvus env key parts vector w))"
    unfolding insert_into_milvus_def
  proof (rule rel_after_first [where R = "db_step ?n"])
    show "db_step ?n a a" for a by (simp add: db_step_same)
    fix x w'
    assume "create_or_get_collection env (parts ! 0) (parts ! 1) w = (Inr x, w')"
    then have "x = Collection ?n" by (rule create_or_get_collection_result)
    then show "db_step ?n w'
        (snd (bind_io (num_entities env x) (\<lambda>before.
           try_except
             (bind_io (insert_rows env x [vector]) (\<lambda>u.
              bind_io (flush env x) (\<lambda>u.
              bind_io (num_entities env x) (\<lambda>after.
              return_io (message_body (''Successfully inserted vector for '' @ key), 200)))))
             (\<lambda>e. return_io (error_body (''Error inserting vector: '' @ exn_str e), 500))) w'))"
      by (auto intro!: db_step_bind db_step_try db_step_num db_step_flush db_step_return
          db_step_insert [where c = "Collection n" for n, simplified])
  qed
  from db_step_keeps [OF this there] show ?thesis .
qed

text \<open>What one request does about the collection of its key.\<close>

lemma request_and_collection:
  fixes env :: "('b, 'f) env" and k :: string
  defines "n \<equiv> full_collection_name (str_split (CHR ''/'') k ! 0) (str_split (CHR ''/'') k ! 1)"
  assumes "dict_get data ''file_key'' = JStr k"
  shows "collections w n \<noteq> None \<Longrightarrow> \<not> list_ex is_creation_call (issued env data w)"
    and "collections w n \<noteq> None \<Longrightarrow> collections (snd (process_file env data w)) n \<noteq> None"
    and "fst (process_file env data w) = Inr (body, st) \<Longrightarrow> st \<noteq> 400 \<Longrightarrow>
           collections (snd (process_file env data w)) n \<noteq> None"
    and "dom (collections (snd (process_file env data w))) \<subseteq> insert n (dom (collections w))"
proof -
  obtain n0 where step: "db_step n0 w (snd (process_file env data w))"
    and "\<forall>k. dict_get data ''file_key'' = JStr k \<longrightarrow>
           n0 = full_collection_name (str_split (CHR ''/'') k ! 0) (str_split (CHR ''/'') k ! 1)"
    using process_file_db_step [of w env data] by blast
  with assms(2) have "n0 = n" by (simp add: n_def)
  with step have step: "db_step n w (snd (process_file env data w))" by simp
  then show "collections (snd (process_file env data w)) n \<noteq> None" if "collections w n \<noteq> None"
    using that by (rule db_step_keeps)
  from step show "dom (collections (snd (process_file env data w))) \<subseteq> insert n (dom (collections w))"
    by (rule db_step_dom)
  show "\<not> list_ex is_creation_call (issued env data w)" if there: "collections w n \<noteq> None"
    using process_file_shape [of env data w]
  proof (elim disjE conjE exE)
    assume "\<forall>c \<in> set (issued env data w).
        c = S3_get_object (dict_get data ''bucket_name'') (dict_get data ''file_key'')
        \<or> (\<exists>body. s3_objects env (dict_get data ''bucket_name'') (dict_get data ''file_key'') = Inr body
             \<and> (\<exists>content. utf8_decode env body = Inr content \<and> c = Model_encode content))"
    then show ?thesis by (auto simp: list_ex_iff)
  next
    fix body' content v k'
    assume "dict_get data ''file_key'' = JStr k'"
      and run: "process_file env data w =
          insert_into_milvus env k' (str_split (CHR ''/'') k') (wrap_vector v)
            (log_call (Model_encode content)
              (log_call (S3_get_object (dict_get data ''bucket_name'') (JStr k')) w))"
    with assms(2) have k: "k' = k" by simp
    have "\<not> list_ex is_creation_call (drop 2 (issued env data w))"
      using run there unfolding k n_def by (rule stored_run(3))
    moreover obtain rest where "issued env data w =
        S3_get_object (dict_get data ''bucket_name'') (JStr k') # Model_encode content # rest"
      using stored_run(1) [OF run] by blast
    ultimately show ?thesis by simp
  qed
  show "collections (snd (process_file env data w)) n \<noteq> None"
    if answered: "fst (process_file env data w) = Inr (body, st)" and st: "st \<noteq> 400"
    using process_file_shape [of env data w]
  proof (elim disjE conjE exE)
    assume "\<forall>r. fst (process_file env data w) = Inr r \<longrightarrow> snd r = 400"
    with answered st show ?thesis by auto
  next
    fix body' content v k'
    assume "dict_get data ''file_key'' = JStr k'"
      and run: "process_file env data w =
          insert_into_milvus env k' (str_split (CHR ''/'') k') (wrap_vector v)
            (log_call (Model_encode content)
              (log_call (S3_get_object (dict_get data ''bucket_name'') (JStr k')) w))"
    with assms(2) have k: "k' = k" by simp
    from answered show ?thesis
      unfolding run k n_def by (rule answered_insertion_has_collection)
  qed
qed

text \<open>
  Claim C5. When the lookup finds the collection of the derived name
  (\<open>has_collection\<close> answers true), no creation call is issued, the collections stay
  as they are, and the handle returned, once the collection is opened and its count
  read, is a handle to that collection. So of two requests handled one after the
  other for keys with the same first two segments, the second issues no creation call
  when the first was answered with 200 or 500, or when the collection was there
  before or after the first; and the two together add no collection but the one of
  that name.
\<close>

theorem existing_collection_is_reused:
  fixes env :: "('b, 'f) env" and p s k1 k2 :: string
    and data1 data2 :: "string \<rightharpoonup> json" and w wr :: "'f world"
  defines "n \<equiv> full_collection_name p s"
    and "m \<equiv> full_collection_name (str_split (CHR ''/'') k1 ! 0) (str_split (CHR ''/'') k1 ! 1)"
    and "w1 \<equiv> snd (process_file env data1 w)"
    and "wa \<equiv> snd (utility_has_collection env (full_collection_name p s) wr)"
  defines "wb \<equiv> snd (Collection_new env n None wa)"
  assumes "data1 ''file_key'' = Some (JStr k1)" and "data2 ''file_key'' = Some (JStr k2)"
    and "take 2 (str_split (CHR ''/'') k2) = take 2 (str_split (CHR ''/'') k1)"
    and "3 \<le> length (str_split (CHR ''/'') k1)" and "3 \<le> length (str_split (CHR ''/'') k2)"
  shows "(fst (utility_has_collection env n wr) = Inr True \<longrightarrow>
            \<not> list_ex is_creation_call (new_calls wr (snd (create_or_get_collection env p s wr)))
          \<and> collections (snd (create_or_get_collection env p s wr)) = collections wr
          \<and> (\<forall>c. fst (create_or_get_collection env p s wr) = Inr c \<longrightarrow>
                c = Collection n \<and> collections wr n \<noteq> None))
     \<and> (fst (utility_has_collection env n wr) = Inr True \<longrightarrow>
          fst (Collection_new env n None wa) = Inr c \<longrightarrow>
          fst (num_entities env c wb) = Inr cnt \<longrightarrow>
            create_or_get_collection env p s wr = (Inr c, snd (num_entities env c wb)))
     \<and> (collections w1 m \<noteq> None \<longrightarrow> \<not> list_ex is_creation_call (issued env data2 w1))
     \<and> (collections w m \<noteq> None \<longrightarrow>
           \<not> list_ex is_creation_call (issued env data1 w)
         \<and> \<not> list_ex is_creation_call (issued env data2 w1))
     \<and> (\<forall>body st. fst (process_file env data1 w) = Inr (body, st) \<longrightarrow> st \<noteq> 400 \<longrightarrow>
           \<not> list_ex is_creation_call (issued env data2 w1))
     \<and> dom (collections (snd (process_file env data2 w1))) \<subseteq> insert m (dom (collections w))"
proof -
  have fk1: "dict_get data1 ''file_key'' = JStr k1" and fk2: "dict_get data2 ''file_key'' = JStr k2"
    using assms(6,7) by (simp_all add: dict_get_def)
  have "take 2 (str_split (CHR ''/'') k2) ! 0 = take 2 (str_split (CHR ''/'') k1) ! 0"
    and "take 2 (str_split (CHR ''/'') k2) ! 1 = take 2 (str_split (CHR ''/'') k1) ! 1"
    using assms(8) by simp_all
  then have m2: "full_collection_name (str_split (CHR ''/'') k2 ! 0) (str_split (CHR ''/'') k2 ! 1) = m"
    by (simp add: m_def)
  have resolve: "\<not> list_ex is_creation_call (new_calls wr (snd (create_or_get_collection env p s wr)))
      \<and> collections (snd (create_or_get_collection env p s wr)) = collections wr
      \<and> (\<forall>c. fst (create_or_get_collection env p s wr) = Inr c \<longrightarrow>
            c = Collection n \<and> collections wr n \<noteq> None)"
    if "fst (utility_has_collection env n wr) = Inr True"
  proof -
    from that have "utility_has_collection env n wr =
        (Inr True, snd (utility_has_collection env n wr))"
      by (simp add: prod_eq_iff)
    then have there: "collections wr (full_collection_name p s) \<noteq> None"
      by (auto dest: has_collection_result simp: n_def)
    then have "extends {c. \<not> is_creation_call c} wr (snd (create_or_get_collection env p s wr))"
      by (rule extends_existing_collection) simp
    then have "set (new_calls wr (snd (create_or_get_collection env p s wr)))
        \<subseteq> {c. \<not> is_creation_call c}"
      by (rule extends_new_calls)
    then have "\<not> list_ex is_creation_call (new_calls wr (snd (create_or_get_collection env p s wr)))"
      by (auto simp: list_ex_iff)
    moreover have "collections (snd (create_or_get_collection env p s wr)) = collections wr"
      using there by (rule existing_collection_unchanged)
    moreover have "c = Collection n"
      if "fst (create_or_get_collection env p s wr) = Inr c" for c
    proof -
      from that have "create_or_get_collection env p s wr =
          (Inr c, snd (create_or_get_collection env p s wr))"
        by (simp add: prod_eq_iff)
      then show ?thesis unfolding n_def by (rule create_or_get_collection_result)
    qed
    ultimately show ?thesis using there by (simp add: n_def)
  qed
  have handle: "create_or_get_collection env p s wr = (Inr c, snd (num_entities env c wb))"
    if "fst (utility_has_collection env n wr) = Inr True"
      and "fst (Collection_new env n None wa) = Inr c"
      and "fst (num_entities env c wb) = Inr cnt"
    using that
    by (simp add: create_or_get_collection_def Let_def bind_io_alt return_io_def
        n_def wa_def wb_def)
  have second: "\<not> list_ex is_creation_call (issued env data2 w1)" if "collections w1 m \<noteq> None"
    using request_and_collection(1) [OF fk2, of w1 env, unfolded m2] that by simp
  have kept: "collections w1 m \<noteq> None" if "collections w m \<noteq> None"
    using request_and_collection(2) [OF fk1, of w env, folded m_def w1_def] that by simp
  have first: "\<not> list_ex is_creation_call (issued env data1 w)" if "collections w m \<noteq> None"
    using request_and_collection(1) [OF fk1, of w env, folded m_def] that by simp
  have answered: "collections w1 m \<noteq> None"
    if "fst (process_file env data1 w) = Inr (body, st)" and "st \<noteq> 400" for body st
    using request_and_collection(3) [OF fk1 that, folded m_def w1_def] by simp
  have "dom (collections (snd (process_file env data2 w1))) \<subseteq> insert m (dom (collections w1))"
    using request_and_collection(4) [OF fk2, of env w1, unfolded m2] by simp
  moreover have "dom (collections w1) \<subseteq> insert m (dom (collections w))"
    using request_and_collection(4) [OF fk1, of env w, folded m_def w1_def] by simp
  ultimately have grown: "dom (collections (snd (process_file env data2 w1)))
      \<subseteq> insert m (dom (collections w))"
    by blast
  from resolve handle second kept first answered grown show ?thesis by blast
qed

theorem existing_collection_is_reused_witness:
  "fst (process_file env_demo (request ''docs'' ''teamA/notes/readme.txt'') world_empty) =
      Inr (JObj [(''message'', JStr ''Successfully inserted vector for teamA/notes/readme.txt'')], 200)
   \<and> list_ex is_creation_call (issued env_demo (request ''docs'' ''teamA/notes/readme.txt'') world_empty)
   \<and> collections (snd (process_file env_demo (request ''docs'' ''teamA/notes/readme.txt'') world_empty))
        ''teamA_notes'' \<noteq> None
   \<and> \<not> list_ex is_creation_call (issued env_demo (request ''docs'' ''teamA/notes/other.txt'')
        (snd (process_file env_demo (request ''docs'' ''teamA/notes/readme.txt'') world_empty)))
   \<and> \<not> list_ex is_creation_call (issued env_demo (request ''docs'' ''teamA/notes/readme.txt'')
        (snd (process_file env_demo (request ''docs'' ''teamA/notes/readme.txt'') world_empty)))
   \<and> fst (utility_has_collection env_demo ''teamA_notes''
        (snd (process_file env_demo (request ''docs'' ''teamA/notes/readme.txt'') world_empty))) = Inr True
   \<and> \<not> list_ex is_creation_call
        (new_calls (snd (process_file env_demo (request ''docs'' ''teamA/notes/readme.txt'') world_empty))
          (snd (create_or_get_collection env_demo ''teamA'' ''notes''
            (snd (process_file env_demo (request ''docs'' ''teamA/notes/readme.txt'') world_empty)))))
   \<and> fst (create_or_get_collection env_demo ''teamA'' ''notes''
        (snd (process_file env_demo (request ''docs'' ''teamA/notes/readme.txt'') world_empty)))
        = Inr (Collection ''teamA_notes'')
   \<and> dom (collections (snd (process_file env_demo (request ''docs'' ''teamA/notes/other.txt'')
        (snd (process_file env_demo (request ''docs'' ''teamA/notes/readme.txt'') world_empty)))))
        \<subseteq> insert ''teamA_notes'' (dom (collections world_empty))"
proof -
  let ?r1 = "request ''docs'' ''teamA/notes/readme.txt''"
  let ?r2 = "request ''docs'' ''teamA/notes/other.txt''"
  let ?w1 = "snd (process_file env_demo ?r1 world_empty)"
  let ?wa = "snd (utility_has_collection env_demo ''teamA_notes'' ?w1)"
  let ?wb = "snd (Collection_new env_demo ''teamA_notes'' None ?wa)"
  have fk1: "?r1 ''file_key'' = Some (JStr ''teamA/notes/readme.txt'')"
    and fk2: "?r2 ''file_key'' = Some (JStr ''teamA/notes/other.txt'')"
    by (simp_all add: request_def)
  have parts1: "str_split (CHR ''/'') ''teamA/notes/readme.txt'' = [''teamA'', ''notes'', ''readme.txt'']"
    and parts2: "str_split (CHR ''/'') ''teamA/notes/other.txt'' = [''teamA'', ''notes'', ''other.txt'']"
    by simp_all
  have same: "take 2 (str_split (CHR ''/'') ''teamA/notes/other.txt'')
      = take 2 (str_split (CHR ''/'') ''teamA/notes/readme.txt'')"
    and l1: "3 \<le> length (str_split (CHR ''/'') ''teamA/notes/readme.txt'')"
    and l2: "3 \<le> length (str_split (CHR ''/'') ''teamA/notes/other.txt'')"
    by (simp_all add: parts1 parts2)
  have name: "full_collection_name ''teamA'' ''notes'' = ''teamA_notes''"
    and name1: "full_collection_name (str_split (CHR ''/'') ''teamA/notes/readme.txt'' ! 0)
        (str_split (CHR ''/'') ''teamA/notes/readme.txt'' ! 1) = ''teamA_notes''"
    by (simp_all add: parts1 full_collection_name_def)
  have answer: "fst (process_file env_demo ?r1 world_empty) =
      Inr (JObj [(''message'', JStr ''Successfully inserted vector for teamA/notes/readme.txt'')], 200)"
    by (simp add: run_defs)
  have created: "list_ex is_creation_call (issued env_demo ?r1 world_empty)"
    by (simp add: run_defs)
  have there: "collections ?w1 ''teamA_notes'' \<noteq> None"
    by (simp add: run_defs)
  have has: "fst (utility_has_collection env_demo ''teamA_notes'' ?w1) = Inr True"
    by (simp add: run_defs)
  have opened: "fst (Collection_new env_demo ''teamA_notes'' None ?wa) = Inr (Collection ''teamA_notes'')"
    by (simp add: run_defs)
  have counted: "fst (num_entities env_demo (Collection ''teamA_notes'') ?wb) = Inr 1"
    by (simp add: run_defs)
  note first = existing_collection_is_reused [where env = env_demo and p = "''teamA''"
      and s = "''notes''" and ?k1.0 = "''teamA/notes/readme.txt''"
      and ?k2.0 = "''teamA/notes/other.txt''" and ?data1.0 = ?r1 and ?data2.0 = ?r2
      and w = world_empty and wr = ?w1 and c = "Collection ''teamA_notes''" and cnt = 1,
      OF fk1 fk2 same l1 l2, unfolded name name1]
  note again = existing_collection_is_reused [where env = env_demo and p = "''teamA''"
      and s = "''notes''" and ?k1.0 = "''teamA/notes/readme.txt''"
      and ?k2.0 = "''teamA/notes/readme.txt''" and ?data1.0 = ?r1 and ?data2.0 = ?r1
      and w = ?w1 and wr = ?w1 and c = "Collection ''teamA_notes''" and cnt = 1,
      OF fk1 fk1 refl l1 l1, unfolded name name1]
  note resolve = first [THEN conjunct1]
    and reopen = first [THEN conjunct2, THEN conjunct1]
    and second = first [THEN conjunct2, THEN conjunct2, THEN conjunct1]
    and both = again [THEN conjunct2, THEN conjunct2, THEN conjunct2, THEN conjunct1]
    and grown = first [THEN conjunct2, THEN conjunct2, THEN conjunct2, THEN conjunct2,
      THEN conjunct2]
  have quiet: "\<not> list_ex is_creation_call (issued env_demo ?r2 ?w1)"
    by (rule mp [OF second there])
  have quiet_again: "\<not> list_ex is_creation_call (issued env_demo ?r1 ?w1)"
    by (rule mp [OF both there, THEN conjunct1])
  have resolved: "\<not> list_ex is_creation_call
      (new_calls ?w1 (snd (create_or_get_collection env_demo ''teamA'' ''notes'' ?w1)))"
    by (rule mp [OF resolve has, THEN conjunct1])
  have "create_or_get_collection env_demo ''teamA'' ''notes'' ?w1 =
      (Inr (Collection ''teamA_notes''), snd (num_entities env_demo (Collection ''teamA_notes'') ?wb))"
    by (rule mp [OF mp [OF mp [OF reopen has] opened] counted])
  then have handle: "fst (create_or_get_collection env_demo ''teamA'' ''notes'' ?w1)
      = Inr (Collection ''teamA_notes'')"
    by (rule arg_cong [where f = fst, THEN trans]) (rule fst_conv)
  show ?thesis
    by (intro conjI answer created there quiet quiet_again has resolved handle grown)
qed

section \<open>The answers of the insertion\<close>

text \<open>
  Claim C7. A request that reaches the insertion and gets through it (the collection
  is resolved, its count read, the row inserted and flushed and the count read again,
  none raising) is answered with 200 and the body
  \<open>{"message": "Successfully inserted vector for <file_key>"}\<close>, with the key as it
  was submitted; and every answer with status 200 has that body.
\<close>

theorem success_names_the_key:
  fixes env :: "('b, 'f) env" and data :: "string \<rightharpoonup> json" and w :: "'f world"
    and b :: json and k content :: string and v :: "'f embedding"
  defines "parts \<equiv> str_split (CHR ''/'') k"
  defines "c \<equiv> Collection (full_collection_name (parts ! 0) (parts ! 1))"
    and "w2 \<equiv> log_call (Model_encode content) (log_call (S3_get_object b (JStr k)) w)"
  defines "w3 \<equiv> snd (create_or_get_collection env (parts ! 0) (parts ! 1) w2)"
  defines "w4 \<equiv> snd (num_entities env c w3)"
  defines "w5 \<equiv> snd (insert_rows env c [wrap_vector v] w4)"
  defines "w6 \<equiv> snd (flush env c w5)"
  assumes "data ''file_key'' = Some (JStr k)"
  shows "(data ''bucket_name'' = Some b \<longrightarrow> truthy b \<longrightarrow> 3 \<le> length parts \<longrightarrow>
          s3_objects env b (JStr k) = Inr body \<longrightarrow> utf8_decode env body = Inr content \<longrightarrow>
          encoder env content = Inr v \<longrightarrow>
          fst (create_or_get_collection env (parts ! 0) (parts ! 1) w2) = Inr c \<longrightarrow>
          fst (num_entities env c w3) = Inr before \<longrightarrow>
          fst (insert_rows env c [wrap_vector v] w4) = Inr () \<longrightarrow>
          fst (flush env c w5) = Inr () \<longrightarrow>
          fst (num_entities env c w6) = Inr after \<longrightarrow>
            process_file env data w =
              (Inr (JObj [(''message'', JStr (''Successfully inserted vector for '' @ k))], 200),
               snd (num_entities env c w6)))
     \<and> (\<forall>r. fst (process_file env data w) = Inr (r, 200) \<longrightarrow>
            r = JObj [(''message'', JStr (''Successfully inserted vector for '' @ k))])"
proof -
  have fk: "dict_get data ''file_key'' = JStr k"
    using assms(8) by (simp add: dict_get_def)
  have path: "process_file env data w =
      (Inr (JObj [(''message'', JStr (''Successfully inserted vector for '' @ k))], 200),
       snd (num_entities env c w6))"
    if "data ''bucket_name'' = Some b" and "truthy b" and "3 \<le> length parts"
      and "s3_objects env b (JStr k) = Inr body" and "utf8_decode env body = Inr content"
      and "encoder env content = Inr v"
      and "fst (create_or_get_collection env (parts ! 0) (parts ! 1) w2) = Inr c"
      and "fst (num_entities env c w3) = Inr before"
      and "fst (insert_rows env c [wrap_vector v] w4) = Inr ()"
      and "fst (flush env c w5) = Inr ()"
      and "fst (num_entities env c w6) = Inr after"
  proof -
    have b: "dict_get data ''bucket_name'' = b" using that(1) by (simp add: dict_get_def)
    have "process_file env data w = insert_into_milvus env k parts (wrap_vector v) w2"
      unfolding parts_def w2_def
      using long_key_stored [where env = env and w = w and data = data and k = k
          and body = body and content = content and v = v] that(2-6) fk b
      by (simp add: parts_def)
    also have "\<dots> =
        (Inr (message_body (''Successfully inserted vector for '' @ k), 200),
         snd (num_entities env c w6))"
      using that(7-) unfolding w3_def w4_def w5_def w6_def
      by (simp add: insert_into_milvus_def bind_io_alt try_except_alt return_io_def)
    finally show ?thesis by (simp add: message_body_def)
  qed
  have conv: "r = JObj [(''message'', JStr (''Successfully inserted vector for '' @ k))]"
    if answered: "fst (process_file env data w) = Inr (r, 200)" for r
    using process_file_shape [of env data w]
  proof (elim disjE conjE exE)
    assume "\<forall>r. fst (process_file env data w) = Inr r \<longrightarrow> snd r = 400"
    with answered show ?thesis by auto
  next
    fix body' content' v' k'
    assume "dict_get data ''file_key'' = JStr k'"
      and run: "process_file env data w =
          insert_into_milvus env k' (str_split (CHR ''/'') k') (wrap_vector v')
            (log_call (Model_encode content')
              (log_call (S3_get_object (dict_get data ''bucket_name'') (JStr k')) w))"
    with fk have k: "k' = k" by simp
    from insert_into_milvus_response [OF answered [unfolded run]] show ?thesis
      by (auto simp: k message_body_def)
  qed
  from path conv show ?thesis by blast
qed

theorem success_names_the_key_witness:
  "fst (process_file env_demo (request ''docs'' ''teamA/notes/readme.txt'') world_empty) =
     Inr (JObj [(''message'', JStr ''Successfully inserted vector for teamA/notes/readme.txt'')], 200)
   \<and> issued env_demo (request ''docs'' ''teamA/notes/readme.txt'') world_empty =
       [S3_get_object (JStr ''docs'') (JStr ''teamA/notes/readme.txt''), Model_encode ''hi'',
        Has_collection ''teamA_notes'',
        Collection_init ''teamA_notes'' (Some collection_schema_new),
        Num_entities ''teamA_notes'', Insert ''teamA_notes'' [[[1, 2, 3]]],
        Flush ''teamA_notes'', Num_entities ''teamA_notes'']"
proof -
  let ?req = "request ''docs'' ''teamA/notes/readme.txt''"
  let ?c = "Collection ''teamA_notes''"
  let ?w2 = "log_call (Model_encode ''hi'')
     (log_call (S3_get_object (JStr ''docs'') (JStr ''teamA/notes/readme.txt'')) world_empty)"
  let ?w3 = "snd (create_or_get_collection env_demo ''teamA'' ''notes'' ?w2)"
  let ?w4 = "snd (num_entities env_demo ?c ?w3)"
  let ?w5 = "snd (insert_rows env_demo ?c [[[1, 2, 3]]] ?w4)"
  let ?w6 = "snd (flush env_demo ?c ?w5)"
  have fk: "?req ''file_key'' = Some (JStr ''teamA/notes/readme.txt'')"
    and b: "?req ''bucket_name'' = Some (JStr ''docs'')"
    by (simp_all add: request_def)
  have parts: "str_split (CHR ''/'') ''teamA/notes/readme.txt'' = [''teamA'', ''notes'', ''readme.txt'']"
    by simp
  have name: "full_collection_name ''teamA'' ''notes'' = ''teamA_notes''"
    by (simp add: full_collection_name_def)
  have wrapped: "wrap_vector (Ndarray [1, 2, 3 :: int]) = [[1, 2, 3]]"
    by (simp add: wrap_vector_def tolist_def)
  have s3: "s3_objects env_demo (JStr ''docs'') (JStr ''teamA/notes/readme.txt'') = Inr [104, 105]"
    and dec: "utf8_decode env_demo [104, 105] = Inr ''hi''"
    and enc: "encoder env_demo ''hi'' = Inr (Ndarray [1, 2, 3])"
    by (simp_all add: env_demo_def)
  have resolved: "fst (create_or_get_collection env_demo ''teamA'' ''notes'' ?w2) = Inr ?c"
    by (simp add: run_defs)
  have counted: "fst (num_entities env_demo ?c ?w3) = Inr 0"
    by (simp add: run_defs)
  have inserted: "fst (insert_rows env_demo ?c [[[1, 2, 3]]] ?w4) = Inr ()"
    by (simp add: run_defs)
  have flushed: "fst (flush env_demo ?c ?w5) = Inr ()"
    by (simp add: run_defs)
  have recounted: "fst (num_entities env_demo ?c ?w6) = Inr 1"
    by (simp add: run_defs)
  have calls: "issued env_demo ?req world_empty =
       [S3_get_object (JStr ''docs'') (JStr ''teamA/notes/readme.txt''), Model_encode ''hi'',
        Has_collection ''teamA_notes'',
        Collection_init ''teamA_notes'' (Some collection_schema_new),
        Num_entities ''teamA_notes'', Insert ''teamA_notes'' [[[1, 2, 3]]],
        Flush ''teamA_notes'', Num_entities ''teamA_notes'']"
    by (simp add: run_defs)
  note run = success_names_the_key [where data = ?req and k = "''teamA/notes/readme.txt''"
      and env = env_demo and w = world_empty and b = "JStr ''docs''" and body = "[104, 105]"
      and content = "''hi''" and v = "Ndarray [1, 2, 3]" and before = 0 and after = 1,
      OF fk, THEN conjunct1]
  have "process_file env_demo ?req world_empty =
     (Inr (JObj [(''message'', JStr ''Successfully inserted vector for teamA/notes/readme.txt'')], 200),
      snd (num_entities env_demo ?c ?w6))"
    using run b s3 dec enc resolved counted inserted flushed recounted
    by (simp add: parts name wrapped)
  then have "fst (process_file env_demo ?req world_empty) =
     Inr (JObj [(''message'', JStr ''Successfully inserted vector for teamA/notes/readme.txt'')], 200)"
    by (rule arg_cong [where f = fst, THEN trans]) (rule fst_conv)
  then show ?thesis using calls by (rule conjI)
qed

text \<open>
  Claim C8. A failure raised by the insert or by the flush is caught: the answer is 500
  with the body \<open>{"error": "Error inserting vector: <detail>"}\<close>, the detail being the
  message of the failure. A failure of the fetch, of the decoding or of the embedding
  is not caught: it leaves the handler as the exception it is.
\<close>

theorem insert_failure_is_server_error:
  fixes env :: "('b, 'f) env" and data :: "string \<rightharpoonup> json" and w :: "'f world"
    and b :: json and k content :: string and v :: "'f embedding"
  defines "parts \<equiv> str_split (CHR ''/'') k"
  defines "c \<equiv> Collection (full_collection_name (parts ! 0) (parts ! 1))"
    and "w1 \<equiv> log_call (S3_get_object b (JStr k)) w"
  defines "w2 \<equiv> log_call (Model_encode content) w1"
  defines "w3 \<equiv> snd (create_or_get_collection env (parts ! 0) (parts ! 1) w2)"
  defines "w4 \<equiv> snd (num_entities env c w3)"
  defines "w5 \<equiv> snd (insert_rows env c [wrap_vector v] w4)"
  defines "w6 \<equiv> snd (flush env c w5)"
  assumes "data ''bucket_name'' = Some b" and "truthy b"
    and "data ''file_key'' = Some (JStr k)" and "k \<noteq> []"
  shows "(s3_objects env b (JStr k) = Inl e1 \<longrightarrow> process_file env data w = (Inl e1, w1))
     \<and> (s3_objects env b (JStr k) = Inr body \<longrightarrow> utf8_decode env body = Inl e2 \<longrightarrow>
           process_file env data w = (Inl e2, w1))
     \<and> (s3_objects env b (JStr k) = Inr body \<longrightarrow> utf8_decode env body = Inr content \<longrightarrow>
          encoder env content = Inl e3 \<longrightarrow> process_file env data w = (Inl e3, w2))
     \<and> (s3_objects env b (JStr k) = Inr body \<longrightarrow> utf8_decode env body = Inr content \<longrightarrow>
          encoder env content = Inr v \<longrightarrow> 3 \<le> length parts \<longrightarrow>
          fst (create_or_get_collection env (parts ! 0) (parts ! 1) w2) = Inr c \<longrightarrow>
          fst (num_entities env c w3) = Inr before \<longrightarrow>
          fst (insert_rows env c [wrap_vector v] w4) = Inl e4 \<longrightarrow>
            process_file env data w =
              (Inr (JObj [(''error'', JStr (''Error inserting vector: '' @ exn_str e4))], 500), w5))
     \<and> (s3_objects env b (JStr k) = Inr body \<longrightarrow> utf8_decode env body = Inr content \<longrightarrow>
          encoder env content = Inr v \<longrightarrow> 3 \<le> length parts \<longrightarrow>
          fst (create_or_get_collection env (parts ! 0) (parts ! 1) w2) = Inr c \<longrightarrow>
          fst (num_entities env c w3) = Inr before \<longrightarrow>
          fst (insert_rows env c [wrap_vector v] w4) = Inr () \<longrightarrow>
          fst (flush env c w5) = Inl e5 \<longrightarrow>
            process_file env data w =
              (Inr (JObj [(''error'', JStr (''Error inserting vector: '' @ exn_str e5))], 500), w6))"
proof -
  have b: "dict_get data ''bucket_name'' = b" and fk: "dict_get data ''file_key'' = JStr k"
    using assms(9,11) by (simp_all add: dict_get_def)
  have tb: "truthy (dict_get data ''bucket_name'')" and tk: "truthy (dict_get data ''file_key'')"
    using assms(10,12) b fk by simp_all
  have fetch: "process_file env data w = (Inl e1, w1)" if "s3_objects env b (JStr k) = Inl e1"
    using fetch_raises [where env = env and w = w and e = e1, OF tb tk] that b fk
    by (simp add: w1_def)
  have decode: "process_file env data w = (Inl e2, w1)"
    if "s3_objects env b (JStr k) = Inr body" and "utf8_decode env body = Inl e2"
    using decode_raises [where env = env and w = w and e = e2 and body = body, OF tb tk] that b fk
    by (simp add: w1_def)
  have encode: "process_file env data w = (Inl e3, w2)"
    if "s3_objects env b (JStr k) = Inr body" and "utf8_decode env body = Inr content"
      and "encoder env content = Inl e3"
    using encode_raises [where env = env and w = w and e = e3 and body = body
        and content = content, OF tb tk] that b fk
    by (simp add: w1_def w2_def)
  have stored: "process_file env data w = insert_into_milvus env k parts (wrap_vector v) w2"
    if "s3_objects env b (JStr k) = Inr body" and "utf8_decode env body = Inr content"
      and "encoder env content = Inr v" and "3 \<le> length parts"
    using long_key_stored [where env = env and w = w and data = data and k = k
        and body = body and content = content and v = v] that tb fk b
    by (simp add: parts_def w1_def w2_def)
  have insert: "process_file env data w =
      (Inr (JObj [(''error'', JStr (''Error inserting vector: '' @ exn_str e4))], 500), w5)"
    if "s3_objects env b (JStr k) = Inr body" and "utf8_decode env body = Inr content"
      and "encoder env content = Inr v" and "3 \<le> length parts"
      and "fst (create_or_get_collection env (parts ! 0) (parts ! 1) w2) = Inr c"
      and "fst (num_entities env c w3) = Inr before"
      and "fst (insert_rows env c [wrap_vector v] w4) = Inl e4"
    unfolding stored [OF that(1-4)]
    using that(5-) unfolding w3_def w4_def w5_def
    by (simp add: insert_into_milvus_def bind_io_alt try_except_alt return_io_def error_body_def)
  have flush: "process_file env data w =
      (Inr (JObj [(''error'', JStr (''Error inserting vector: '' @ exn_str e5))], 500), w6)"
    if "s3_objects env b (JStr k) = Inr body" and "utf8_decode env body = Inr content"
      and "encoder env content = Inr v" and "3 \<le> length parts"
      and "fst (create_or_get_collection env (parts ! 0) (parts ! 1) w2) = Inr c"
      and "fst (num_entities env c w3) = Inr before"
      and "fst (insert_rows env c [wrap_vector v] w4) = Inr ()"
      and "fst (flush env c w5) = Inl e5"
    unfolding stored [OF that(1-4)]
    using that(5-) unfolding w3_def w4_def w5_def w6_def
    by (simp add: insert_into_milvus_def bind_io_alt try_except_alt return_io_def error_body_def)
  from fetch decode encode insert flush show ?thesis by blast
qed

theorem insert_failure_is_server_error_witness:
  "fst (process_file env_demo (request ''docs'' ''teamA/notes/missing.txt'') world_empty) =
     Inl (Exn ''NoSuchKey'' ''The specified key does not exist.'')
   \<and> fst (process_file env_demo (request ''docs'' ''teamA/notes/binary.bin'') world_empty) =
     Inl (Exn ''UnicodeDecodeError'' ''invalid start byte'')
   \<and> fst (process_file env_demo (request ''docs'' ''teamA/notes/huge.txt'') world_empty) =
     Inl (Exn ''RuntimeError'' ''out of memory'')
   \<and> fst (process_file env_demo (request ''docs'' ''bad/insert/x.txt'') world_empty) =
     Inr (JObj [(''error'', JStr ''Error inserting vector: dimension mismatch'')], 500)
   \<and> fst (process_file env_demo (request ''docs'' ''bad/flush/x.txt'') world_empty) =
     Inr (JObj [(''error'', JStr ''Error inserting vector: flush timed out'')], 500)"
proof -
  have tb: "truthy (JStr ''docs'')" by simp
  have dec: "utf8_decode env_demo [104, 105] = Inr ''hi''"
    and enc: "encoder env_demo ''hi'' = Inr (Ndarray [1, 2, 3])"
    by (simp_all add: env_demo_def)
  have wrapped: "wrap_vector (Ndarray [1, 2, 3 :: int]) = [[1, 2, 3]]"
    by (simp add: wrap_vector_def tolist_def)
  have missing: "fst (process_file env_demo (request ''docs'' ''teamA/notes/missing.txt'') world_empty) =
      Inl (Exn ''NoSuchKey'' ''The specified key does not exist.'')"
  proof -
    let ?k = "''teamA/notes/missing.txt''"
    have b: "request ''docs'' ?k ''bucket_name'' = Some (JStr ''docs'')"
      and fk: "request ''docs'' ?k ''file_key'' = Some (JStr ?k)" and ne: "?k \<noteq> []"
      by (simp_all add: request_def)
    have s3: "s3_objects env_demo (JStr ''docs'') (JStr ?k) =
        Inl (Exn ''NoSuchKey'' ''The specified key does not exist.'')"
      by (simp add: env_demo_def)
    note run = insert_failure_is_server_error [where data = "request ''docs'' ?k" and k = ?k
        and env = env_demo and w = world_empty and b = "JStr ''docs''"
        and ?e1.0 = "Exn ''NoSuchKey'' ''The specified key does not exist.''",
        OF b tb fk ne, THEN conjunct1]
    have "process_file env_demo (request ''docs'' ?k) world_empty =
        (Inl (Exn ''NoSuchKey'' ''The specified key does not exist.''),
         log_call (S3_get_object (JStr ''docs'') (JStr ?k)) world_empty)"
      by (rule mp [OF run s3])
    then show ?thesis by (rule arg_cong [where f = fst, THEN trans]) (rule fst_conv)
  qed
  have binary: "fst (process_file env_demo (request ''docs'' ''teamA/notes/binary.bin'') world_empty) =
      Inl (Exn ''UnicodeDecodeError'' ''invalid start byte'')"
  proof -
    let ?k = "''teamA/notes/binary.bin''"
    have b: "request ''docs'' ?k ''bucket_name'' = Some (JStr ''docs'')"
      and fk: "request ''docs'' ?k ''file_key'' = Some (JStr ?k)" and ne: "?k \<noteq> []"
      by (simp_all add: request_def)
    have s3: "s3_objects env_demo (JStr ''docs'') (JStr ?k) = Inr [255]"
      and bad: "utf8_decode env_demo [255] = Inl (Exn ''UnicodeDecodeError'' ''invalid start byte'')"
      by (simp_all add: env_demo_def)
    note run = insert_failure_is_server_error [where data = "request ''docs'' ?k" and k = ?k
        and env = env_demo and w = world_empty and b = "JStr ''docs''" and body = "[255]"
        and ?e2.0 = "Exn ''UnicodeDecodeError'' ''invalid start byte''",
        OF b tb fk ne, THEN conjunct2, THEN conjunct1]
    have "process_file env_demo (request ''docs'' ?k) world_empty =
        (Inl (Exn ''UnicodeDecodeError'' ''invalid start byte''),
         log_call (S3_get_object (JStr ''docs'') (JStr ?k)) world_empty)"
      by (rule mp [OF mp [OF run s3] bad])
    then show ?thesis by (rule arg_cong [where f = fst, THEN trans]) (rule fst_conv)
  qed
  have huge: "fst (process_file env_demo (request ''docs'' ''teamA/notes/huge.txt'') world_empty) =
      Inl (Exn ''RuntimeError'' ''out of memory'')"
  proof -
    let ?k = "''teamA/notes/huge.txt''"
    have b: "request ''docs'' ?k ''bucket_name'' = Some (JStr ''docs'')"
      and fk: "request ''docs'' ?k ''file_key'' = Some (JStr ?k)" and ne: "?k \<noteq> []"
      by (simp_all add: request_def)
    have s3: "s3_objects env_demo (JStr ''docs'') (JStr ?k) = Inr [104, 117, 103, 101]"
      and ok: "utf8_decode env_demo [104, 117, 103, 101] = Inr ''huge''"
      and bad: "encoder env_demo ''huge'' = Inl (Exn ''RuntimeError'' ''out of memory'')"
      by (simp_all add: env_demo_def)
    note run = insert_failure_is_server_error [where data = "request ''docs'' ?k" and k = ?k
        and env = env_demo and w = world_empty and b = "JStr ''docs''"
        and body = "[104, 117, 103, 101]" and content = "''huge''"
        and ?e3.0 = "Exn ''RuntimeError'' ''out of memory''",
        OF b tb fk ne, THEN conjunct2, THEN conjunct2, THEN conjunct1]
    have "process_file env_demo (request ''docs'' ?k) world_empty =
        (Inl (Exn ''RuntimeError'' ''out of memory''),
         log_call (Model_encode ''huge'')
           (log_call (S3_get_object (JStr ''docs'') (JStr ?k)) world_empty))"
      by (rule mp [OF mp [OF mp [OF run s3] ok] bad])
    then show ?thesis by (rule arg_cong [where f = fst, THEN trans]) (rule fst_conv)
  qed
  have rejected: "fst (process_file env_demo (request ''docs'' ''bad/insert/x.txt'') world_empty) =
      Inr (JObj [(''error'', JStr ''Error inserting vector: dimension mismatch'')], 500)"
  proof -
    let ?k = "''bad/insert/x.txt''"
    let ?c = "Collection ''bad_insert''"
    let ?w2 = "log_call (Model_encode ''hi'')
       (log_call (S3_get_object (JStr ''docs'') (JStr ?k)) world_empty)"
    let ?w3 = "snd (create_or_get_collection env_demo ''bad'' ''insert'' ?w2)"
    let ?w4 = "snd (num_entities env_demo ?c ?w3)"
    have b: "request ''docs'' ?k ''bucket_name'' = Some (JStr ''docs'')"
      and fk: "request ''docs'' ?k ''file_key'' = Some (JStr ?k)" and ne: "?k \<noteq> []"
      by (simp_all add: request_def)
    have parts: "str_split (CHR ''/'') ?k = [''bad'', ''insert'', ''x.txt'']" by simp
    have name: "full_collection_name ''bad'' ''insert'' = ''bad_insert''"
      by (simp add: full_collection_name_def)
    have s3: "s3_objects env_demo (JStr ''docs'') (JStr ?k) = Inr [104, 105]"
      by (simp add: env_demo_def)
    have resolved: "fst (create_or_get_collection env_demo ''bad'' ''insert'' ?w2) = Inr ?c"
      by (simp add: run_defs)
    have counted: "fst (num_entities env_demo ?c ?w3) = Inr 0"
      by (simp add: run_defs)
    have raised: "fst (insert_rows env_demo ?c [[[1, 2, 3]]] ?w4) =
        Inl (Exn ''MilvusException'' ''dimension mismatch'')"
      by (simp add: run_defs)
    note run = insert_failure_is_server_error [where data = "request ''docs'' ?k" and k = ?k
        and env = env_demo and w = world_empty and b = "JStr ''docs''" and body = "[104, 105]"
        and content = "''hi''" and v = "Ndarray [1, 2, 3]" and before = 0
        and ?e4.0 = "Exn ''MilvusException'' ''dimension mismatch''",
        OF b tb fk ne, THEN conjunct2, THEN conjunct2, THEN conjunct2, THEN conjunct1]
    have "process_file env_demo (request ''docs'' ?k) world_empty =
        (Inr (JObj [(''error'', JStr ''Error inserting vector: dimension mismatch'')], 500),
         snd (insert_rows env_demo ?c [[[1, 2, 3]]] ?w4))"
      using run s3 dec enc resolved counted raised by (simp add: parts name wrapped)
    then show ?thesis by (rule arg_cong [where f = fst, THEN trans]) (rule fst_conv)
  qed
  have timed_out: "fst (process_file env_demo (request ''docs'' ''bad/flush/x.txt'') world_empty) =
      Inr (JObj [(''error'', JStr ''Error inserting vector: flush timed out'')], 500)"
  proof -
    let ?k = "''bad/flush/x.txt''"
    let ?c = "Collection ''bad_flush''"
    let ?w2 = "log_call (Model_encode ''hi'')
       (log_call (S3_get_object (JStr ''docs'') (JStr ?k)) world_empty)"
    let ?w3 = "snd (create_or_get_collection env_demo ''bad'' ''flush'' ?w2)"
    let ?w4 = "snd (num_entities env_demo ?c ?w3)"
    let ?w5 = "snd (insert_rows env_demo ?c [[[1, 2, 3]]] ?w4)"
    have b: "request ''docs'' ?k ''bucket_name'' = Some (JStr ''docs'')"
      and fk: "request ''docs'' ?k ''file_key'' = Some (JStr ?k)" and ne: "?k \<noteq> []"
      by (simp_all add: request_def)
    have parts: "str_split (CHR ''/'') ?k = [''bad'', ''flush'', ''x.txt'']" by simp
    have name: "full_collection_name ''bad'' ''flush'' = ''bad_flush''"
      by (simp add: full_collection_name_def)
    have s3: "s3_objects env_demo (JStr ''docs'') (JStr ?k) = Inr [104, 105]"
      by (simp add: env_demo_def)
    have resolved: "fst (create_or_get_collection env_demo ''bad'' ''flush'' ?w2) = Inr ?c"
      by (simp add: run_defs)
    have counted: "fst (num_entities env_demo ?c ?w3) = Inr 0"
      by (simp add: run_defs)
    have inserted: "fst (insert_rows env_demo ?c [[[1, 2, 3]]] ?w4) = Inr ()"
      by (simp add: run_defs)
    have raised: "fst (flush env_demo ?c ?w5) =
        Inl (Exn ''MilvusException'' ''flush timed out'')"
      by (simp add: run_defs)
    note run = insert_failure_is_server_error [where data = "request ''docs'' ?k" and k = ?k
        and env = env_demo and w = world_empty and b = "JStr ''docs''" and body = "[104, 105]"
        and content = "''hi''" and v = "Ndarray [1, 2, 3]" and before = 0
        and ?e5.0 = "Exn ''MilvusException'' ''flush timed out''",
        OF b tb fk ne, THEN conjunct2, THEN conjunct2, THEN conjunct2, THEN conjunct2]
    have "process_file env_demo (request ''docs'' ?k) world_empty =
        (Inr (JObj [(''error'', JStr ''Error inserting vector: flush timed out'')], 500),
         snd (flush env_demo ?c ?w5))"
      using run s3 dec enc resolved counted inserted raised by (simp add: parts name wrapped)
    then show ?thesis by (rule arg_cong [where f = fst, THEN trans]) (rule fst_conv)
  qed
  show ?thesis
    by (intro conjI missing binary huge rejected timed_out)
qed

end
